theory Spec2Isabelle
  imports Complex_Main
begin

section \<open>Tinnitus noise matching: the synthesis core and the matching session\<close>

text \<open>
  The development embeds \<^verbatim>\<open>tinnitus_noise_matching.py\<close>: the noise source
  \<^verbatim>\<open>generate_white_noise\<close>, the band-pass shaper \<^verbatim>\<open>generate_bandpass_noise\<close> and the
  interactive loop \<^verbatim>\<open>tinnitus_matching\<close>. The GUI variant carries the same two synthesis
  functions, word for word.

  Numbers. Python's ints and floats are both modelled by \<^typ>\<open>real\<close>. The product
  \<^verbatim>\<open>duration_sec * sample_rate\<close>, whose truncation is the sample count, is rounded to the
  nearest double (ties to even) and overflows to infinity as in IEEE 754; for integer
  factors with a product below \<open>2 ^ 53\<close> this rounding is the identity, as Python's integer
  product is. All other arithmetic (cut-offs, normalisation, the filter recursion, the
  centre frequency) is exact in the model, so its rounding error, overflow and NaN are
  not represented. The concrete inputs of the counterexamples are chosen so that the float
  computation is exact as well.

  Library calls. numpy, scipy and sounddevice are not part of the repository. They are
  modelled by what the program relies on:
  \<^item> \<^verbatim>\<open>np.random.uniform(low, high, size)\<close> draws \<open>size\<close> values
    \<open>low + (high - low) * u\<close> with \<open>u\<close> taken from the generator, a sequence of raw draws
    in \<open>[0, 1)\<close>, and raises ValueError for a negative size and for a size of \<open>2 ^ 60\<close> or
    more, whose eight-byte samples exceed the largest array numpy can describe; below that
    limit the allocation of the buffer is taken to succeed;
  \<^item> \<^verbatim>\<open>scipy.signal.butter(N=4, Wn=[low, high], btype='band')\<close> checks its critical
    frequencies (each must be greater than 0, the first less than the second, each less
    than 1) and raises ValueError otherwise; the coefficient computation itself is a
    parameter \<open>D\<close> of the model;
  \<^item> \<^verbatim>\<open>scipy.signal.lfilter(b, a, x)\<close> is the transposed direct form II recursion from a
    zero state, after normalising by \<open>a[0]\<close>; it raises when \<open>a[0]\<close> is 0;
  \<^item> \<^verbatim>\<open>play_sound\<close> and \<^verbatim>\<open>print\<close> and \<^verbatim>\<open>input\<close> are events of a trace; \<^verbatim>\<open>input\<close>
    raises EOFError when the supplied lines are used up.
\<close>

subsection \<open>Errors\<close>

datatype error =
    ValueError_uniform      \<comment> \<open>np.random.uniform: negative dimensions, or array too big\<close>
  | ValueError_butter       \<comment> \<open>scipy.signal.butter: critical frequencies rejected\<close>
  | ValueError_lfilter      \<comment> \<open>scipy.signal.lfilter: a[0] is 0\<close>
  | OverflowError           \<comment> \<open>int() of an infinite float\<close>
  | ZeroDivisionError       \<comment> \<open>float division by zero\<close>
  | EOFError                \<comment> \<open>input() at the end of the supplied lines\<close>

subsection \<open>Noise source\<close>

type_synonym rng = "nat \<Rightarrow> real"

text \<open>Python's \<^verbatim>\<open>int(x)\<close> on a float truncates toward zero.\<close>

definition py_int :: "real \<Rightarrow> int" where
  "py_int x = (if 0 \<le> x then \<lfloor>x\<rfloor> else \<lceil>x\<rceil>)"

definition uniform :: "rng \<Rightarrow> real \<Rightarrow> real \<Rightarrow> int \<Rightarrow> error + (real list \<times> rng)" where
  "uniform g low high n =
     (if n < 0 \<or> 2 ^ 60 \<le> n then Inl ValueError_uniform
      else Inr (map (\<lambda>i. low + (high - low) * g i) [0..<nat n],
                \<lambda>i. g (i + nat n)))"

text \<open>
  The float product. \<open>exponent x\<close> is the binary exponent of the double format at \<open>x\<close>
  (at least -1022, below which doubles are subnormal), \<open>ulp x\<close> the spacing of the doubles
  there (53-bit significand), \<open>nearest_double\<close> rounds to the nearest double with ties to
  the even significand, and \<open>float_mul\<close> is \<open>None\<close> when the rounded product is infinite.
\<close>

definition exponent :: "real \<Rightarrow> int" where
  "exponent x = max \<lfloor>log 2 \<bar>x\<bar>\<rfloor> (- 1022)"

definition ulp :: "real \<Rightarrow> real" where
  "ulp x = 2 powr of_int (exponent x - 52)"

definition round_half_even :: "real \<Rightarrow> int" where
  "round_half_even y =
     (if y - of_int \<lfloor>y\<rfloor> < 1 / 2 then \<lfloor>y\<rfloor>
      else if 1 / 2 < y - of_int \<lfloor>y\<rfloor> then \<lfloor>y\<rfloor> + 1
      else if even \<lfloor>y\<rfloor> then \<lfloor>y\<rfloor> else \<lfloor>y\<rfloor> + 1)"

definition nearest_double :: "real \<Rightarrow> real" where
  "nearest_double x = (if x = 0 then 0 else of_int (round_half_even (x / ulp x)) * ulp x)"

definition float_mul :: "real \<Rightarrow> real \<Rightarrow> real option" where
  "float_mul x y =
     (let r = nearest_double (x * y) in if 2 ^ 1024 \<le> \<bar>r\<bar> then None else Some r)"

definition generate_white_noise :: "rng \<Rightarrow> real \<Rightarrow> real \<Rightarrow> error + (real list \<times> rng)" where
  "generate_white_noise g duration_sec sample_rate =
     (case float_mul duration_sec sample_rate of
        None \<Rightarrow> Inl OverflowError
      | Some p \<Rightarrow> uniform g (- 1) 1 (py_int p))"

subsection \<open>Band-pass shaper\<close>

type_synonym coefficients = "real list \<times> real list"
type_synonym design = "real \<Rightarrow> real \<Rightarrow> coefficients"

definition butter :: "design \<Rightarrow> real \<Rightarrow> real \<Rightarrow> error + coefficients" where
  "butter D low high =
     (if low \<le> 0 \<or> high \<le> 0 then Inl ValueError_butter
      else if \<not> low < high then Inl ValueError_butter
      else if 1 \<le> low \<or> 1 \<le> high then Inl ValueError_butter
      else Inr (D low high))"

fun df2t :: "real list \<Rightarrow> real list \<Rightarrow> real list \<Rightarrow> real list \<Rightarrow> real list" where
  "df2t b a z [] = []"
| "df2t b a z (x # xs) =
     (let y = (case z of [] \<Rightarrow> 0 | z0 # _ \<Rightarrow> z0) + hd b * x;
          z' = map (\<lambda>(zi, bi, ai). zi + bi * x - ai * y)
                   (zip (tl z @ [0]) (zip (tl b) (tl a)))
      in y # df2t b a z' xs)"

definition lfilter :: "real list \<Rightarrow> real list \<Rightarrow> real list \<Rightarrow> error + real list" where
  "lfilter b a x =
     (if a = [] \<or> hd a = 0 then Inl ValueError_lfilter
      else
        let n = max (length a) (length b);
            bn = map (\<lambda>v. v / hd a) (b @ replicate (n - length b) 0);
            an = map (\<lambda>v. v / hd a) (a @ replicate (n - length a) 0)
        in Inr (df2t bn an (replicate (n - 1) 0) x))"

definition lowcut :: "real \<Rightarrow> real \<Rightarrow> real" where
  "lowcut centre_freq bandwidth = max 0 (centre_freq - bandwidth / 2)"

definition highcut :: "real \<Rightarrow> real \<Rightarrow> real \<Rightarrow> real" where
  "highcut centre_freq bandwidth sample_rate =
     min (sample_rate / 2) (centre_freq + bandwidth / 2)"

definition nyquist :: "real \<Rightarrow> real" where
  "nyquist sample_rate = 0.5 * sample_rate"

definition generate_bandpass_noise ::
  "design \<Rightarrow> rng \<Rightarrow> real \<Rightarrow> real \<Rightarrow> real \<Rightarrow> real \<Rightarrow> error + (real list \<times> rng)" where
  "generate_bandpass_noise D g centre_freq bandwidth duration_sec sample_rate =
     (case generate_white_noise g duration_sec sample_rate of
        Inl e \<Rightarrow> Inl e
      | Inr (white_noise, g') \<Rightarrow>
          if nyquist sample_rate = 0 then Inl ZeroDivisionError
          else
            (case butter D (lowcut centre_freq bandwidth / nyquist sample_rate)
                           (highcut centre_freq bandwidth sample_rate / nyquist sample_rate) of
               Inl e \<Rightarrow> Inl e
             | Inr (b, a) \<Rightarrow>
                 (case lfilter b a white_noise of
                    Inl e \<Rightarrow> Inl e
                  | Inr bandpass_noise \<Rightarrow> Inr (bandpass_noise, g'))))"

subsection \<open>Matching session\<close>

record match_state =
  centre_freq :: real
  bandwidth :: real
  sample_rate :: real
  duration_sec :: real

datatype event =
    Printed string
  | Played "real list" real
  | Read string

definition octave_factor :: real where
  "octave_factor = 2 powr (1 / 3)"

definition menu :: "event list" where
  "menu =
     [Printed (CHR 0x0A # ''Adjust the sound to match your tinnitus:''),
      Printed ''[1] Increase centre frequency'',
      Printed ''[2] Decrease centre frequency'',
      Printed ''[3] Increase bandwidth'',
      Printed ''[4] Decrease bandwidth'',
      Printed ''[5] Increase duration'',
      Printed ''[6] Decrease duration'',
      Printed ''[7] Play sound again'',
      Printed ''[0] Exit and save matched parameters'',
      Printed ''Enter your choice: '']"

definition invalid_input :: event where
  "invalid_input = Printed ''Invalid input, please try again.''"

definition emit :: "event list \<Rightarrow> event list \<times> 'a \<Rightarrow> event list \<times> 'a" where
  "emit es r = (es @ fst r, snd r)"

text \<open>
  The \<^verbatim>\<open>while True\<close> loop, one equation per state of the input: the lines still to be
  read. Each turn synthesises and plays the current parameters, prints the menu, reads a
  line and dispatches on it. An exception of the synthesis leaves the loop (nothing
  catches it), and so does EOFError.
\<close>

fun loop :: "design \<Rightarrow> rng \<Rightarrow> match_state \<Rightarrow> string list \<Rightarrow> event list \<times> (error + match_state)" where
  "loop D g s [] =
     (case generate_bandpass_noise D g (centre_freq s) (bandwidth s) (duration_sec s) (sample_rate s) of
        Inl e \<Rightarrow> ([], Inl e)
      | Inr (noise_signal, g') \<Rightarrow> (Played noise_signal (sample_rate s) # menu, Inl EOFError))"
| "loop D g s (user_input # ins) =
     (case generate_bandpass_noise D g (centre_freq s) (bandwidth s) (duration_sec s) (sample_rate s) of
        Inl e \<Rightarrow> ([], Inl e)
      | Inr (noise_signal, g') \<Rightarrow>
          let turn = Played noise_signal (sample_rate s) # menu @ [Read user_input] in
          if user_input = ''1'' then
            emit turn (loop D g' (s\<lparr>centre_freq := centre_freq s * octave_factor\<rparr>) ins)
          else if user_input = ''2'' then
            emit turn (loop D g' (s\<lparr>centre_freq := centre_freq s / octave_factor\<rparr>) ins)
          else if user_input = ''3'' then
            emit turn (loop D g' (s\<lparr>bandwidth := bandwidth s + 50\<rparr>) ins)
          else if user_input = ''4'' then
            emit turn (loop D g' (s\<lparr>bandwidth := bandwidth s - 50\<rparr>) ins)
          else if user_input = ''5'' then
            emit turn (loop D g' (s\<lparr>duration_sec := duration_sec s + 1\<rparr>) ins)
          else if user_input = ''6'' then
            emit turn (loop D g' (s\<lparr>duration_sec := duration_sec s - 1\<rparr>) ins)
          else if user_input = ''7'' then
            emit turn (loop D g' s ins)
          else if user_input = ''0'' then
            (turn, Inr s)
          else
            emit (turn @ [invalid_input]) (loop D g' s ins))"

definition initial_state :: match_state where
  "initial_state = \<lparr>centre_freq = 2000, bandwidth = 320, sample_rate = 44100, duration_sec = 3\<rparr>"

definition tinnitus_matching :: "design \<Rightarrow> rng \<Rightarrow> string list \<Rightarrow> event list \<times> (error + match_state)" where
  "tinnitus_matching D g ins =
     emit [Printed ''Starting tinnitus matching.''] (loop D g initial_state ins)"

text \<open>
  The dispatch on the line read, as a function on the state: the state with which the
  loop goes on after \<open>user_input\<close>. Lemma \<open>loop_Cons\<close> below proves that \<open>loop\<close> does
  exactly this.
\<close>

definition transition :: "string \<Rightarrow> match_state \<Rightarrow> match_state" where
  "transition user_input s =
     (if user_input = ''1'' then s\<lparr>centre_freq := centre_freq s * octave_factor\<rparr>
      else if user_input = ''2'' then s\<lparr>centre_freq := centre_freq s / octave_factor\<rparr>
      else if user_input = ''3'' then s\<lparr>bandwidth := bandwidth s + 50\<rparr>
      else if user_input = ''4'' then s\<lparr>bandwidth := bandwidth s - 50\<rparr>
      else if user_input = ''5'' then s\<lparr>duration_sec := duration_sec s + 1\<rparr>
      else if user_input = ''6'' then s\<lparr>duration_sec := duration_sec s - 1\<rparr>
      else s)"

definition recognised :: "string \<Rightarrow> bool" where
  "recognised user_input =
     (user_input \<in> set [''1'', ''2'', ''3'', ''4'', ''5'', ''6'', ''7'', ''0''])"

subsection \<open>Observations on results and traces\<close>

definition noise_length :: "error + (real list \<times> rng) \<Rightarrow> error + nat" where
  "noise_length r = (case r of Inl e \<Rightarrow> Inl e | Inr (w, g') \<Rightarrow> Inr (length w))"

fun plays :: "event list \<Rightarrow> nat" where
  "plays [] = 0"
| "plays (Played w r # es) = Suc (plays es)"
| "plays (Printed t # es) = plays es"
| "plays (Read u # es) = plays es"

text \<open>
  \<open>play_then_read p es\<close>: every line read in \<open>es\<close> comes after a playback that no earlier
  read has used up; \<open>p\<close> says whether such a playback is pending at the start.
\<close>

fun play_then_read :: "bool \<Rightarrow> event list \<Rightarrow> bool" where
  "play_then_read p [] = True"
| "play_then_read p (Played w r # es) = play_then_read True es"
| "play_then_read p (Printed t # es) = play_then_read p es"
| "play_then_read p (Read u # es) = (p \<and> play_then_read False es)"

text \<open>The sample rates of the playbacks in a trace.\<close>

fun rates :: "event list \<Rightarrow> real list" where
  "rates [] = []"
| "rates (Played w r # es) = r # rates es"
| "rates (Printed t # es) = rates es"
| "rates (Read u # es) = rates es"

text \<open>
  A design is usable by \<open>lfilter\<close> when the denominator it returns has a leading
  coefficient other than 0 (\<^verbatim>\<open>butter\<close> returns a monic denominator).
\<close>

definition usable :: "design \<Rightarrow> bool" where
  "usable D = (\<forall>low high. snd (D low high) \<noteq> [] \<and> hd (snd (D low high)) \<noteq> 0)"

subsection \<open>Sample collaborators for concrete runs\<close>

text \<open>
  A pass-through filter with the nine coefficients of an order-4 band-pass,
  \<open>b = a = [1, 0, 0, 0, 0, 0, 0, 0, 0]\<close>, and a generator whose raw draws are all 1/2.
\<close>

definition unit_design :: design where
  "unit_design low high = (1 # replicate 8 0, 1 # replicate 8 0)"

definition half_rng :: rng where
  "half_rng i = 1 / 2"

section \<open>Properties of the float product\<close>

lemma floor_log2_eq:
  assumes "2 powr of_int e \<le> \<bar>x\<bar>" and "\<bar>x\<bar> < 2 powr of_int (e + 1)"
  shows "\<lfloor>log 2 \<bar>x\<bar>\<rfloor> = e"
proof -
  have "0 < (2::real) powr of_int e" by simp
  with assms(1) have "0 < \<bar>x\<bar>" by linarith
  then show ?thesis
    using assms by (simp add: floor_log_eq_powr_iff)
qed

lemma ulp_pos: "0 < ulp x"
  by (simp add: ulp_def)

lemma round_half_even_of_int [simp]: "round_half_even (of_int k) = k"
  by (simp add: round_half_even_def)

lemma round_half_even_bounds: "\<lfloor>y\<rfloor> \<le> round_half_even y" "round_half_even y \<le> \<lfloor>y\<rfloor> + 1"
  by (simp_all add: round_half_even_def)

lemma nearest_double_nonneg:
  assumes "0 \<le> x"
  shows "0 \<le> nearest_double x"
proof (cases "x = 0")
  case True
  then show ?thesis by (simp add: nearest_double_def)
next
  case False
  from assms ulp_pos [of x] have "0 \<le> x / ulp x" by simp
  then have "0 \<le> \<lfloor>x / ulp x\<rfloor>" by simp
  with round_half_even_bounds(1) [of "x / ulp x"] have "0 \<le> round_half_even (x / ulp x)"
    by linarith
  with ulp_pos [of x] False show ?thesis by (simp add: nearest_double_def)
qed

text \<open>A value \<open>m * 2 ^ k\<close> with \<open>\<bar>m\<bar> < 2 ^ 53\<close> and \<open>k \<ge> -1074\<close> is a double, and is not rounded.\<close>

lemma nearest_double_exact:
  assumes x: "x = of_int m * 2 powr of_int k" and m: "\<bar>m\<bar> < 2 ^ 53" and k: "- 1074 \<le> k"
  shows "nearest_double x = x"
proof (cases "x = 0")
  case True
  then show ?thesis by (simp add: nearest_double_def)
next
  case False
  with x have m0: "m \<noteq> 0" by auto
  have ax: "\<bar>x\<bar> = of_int \<bar>m\<bar> * 2 powr of_int k" by (simp add: x abs_mult)
  from m have "of_int \<bar>m\<bar> < (2::real) ^ 53"
    by (metis of_int_less_iff of_int_numeral of_int_power)
  then have "\<bar>x\<bar> < 2 ^ 53 * 2 powr of_int k"
    unfolding ax by (simp add: mult_strict_right_mono)
  also have "\<dots> = 2 powr of_int (53 + k)"
    by (simp add: powr_add)
  finally have "log 2 \<bar>x\<bar> < of_int (53 + k)"
    using False by (simp add: log_less_iff del: of_int_add)
  then have "\<lfloor>log 2 \<bar>x\<bar>\<rfloor> < 53 + k" by (simp add: floor_less_iff del: of_int_add)
  with k have e: "exponent x - 52 \<le> k" by (simp add: exponent_def)
  define j where "j = nat (k - (exponent x - 52))"
  from e have j: "of_int k = of_int (exponent x - 52) + real j"
    by (simp add: j_def)
  have "x / ulp x = of_int m * (2 powr of_int k / 2 powr of_int (exponent x - 52))"
    by (simp add: x ulp_def)
  also have "2 powr of_int k / 2 powr of_int (exponent x - 52) = 2 powr (real j)"
    unfolding j by (simp add: powr_add)
  also have "\<dots> = 2 ^ j" by (simp add: powr_realpow)
  finally have q: "x / ulp x = of_int (m * 2 ^ j)" by simp
  have "nearest_double x = of_int (round_half_even (x / ulp x)) * ulp x"
    using False by (simp add: nearest_double_def)
  also have "\<dots> = x / ulp x * ulp x" by (simp only: q round_half_even_of_int)
  also have "\<dots> = x" using ulp_pos [of x] by simp
  finally show ?thesis .
qed

lemma nearest_double_of_int:
  assumes "\<bar>n\<bar> < 2 ^ 53"
  shows "nearest_double (of_int n) = of_int n"
  using nearest_double_exact [of "of_int n" n 0] assms by simp

lemma float_mul_exact:
  assumes "x * y = of_int m * 2 powr of_int k" and "\<bar>m\<bar> < 2 ^ 53" and "- 1074 \<le> k" and "k \<le> 0"
  shows "float_mul x y = Some (x * y)"
proof -
  have n: "nearest_double (x * y) = x * y" using assms(1-3) by (rule nearest_double_exact)
  from assms(4) have "(2::real) powr of_int k \<le> 2 powr 0"
    by (intro powr_mono) simp_all
  then have p: "(2::real) powr of_int k \<le> 1" by simp
  from assms(2) have a: "of_int \<bar>m\<bar> < (2::real) ^ 53"
    by (metis of_int_less_iff of_int_numeral of_int_power)
  have "of_int \<bar>m\<bar> * 2 powr of_int k \<le> of_int \<bar>m\<bar> * (1::real)"
    using p by (intro mult_left_mono) simp_all
  with a have b: "of_int \<bar>m\<bar> * 2 powr of_int k < (2::real) ^ 53" by simp
  have "(2::real) ^ 53 \<le> 2 ^ 1024" by (rule power_increasing) simp_all
  with b have "of_int \<bar>m\<bar> * 2 powr of_int k < (2::real) ^ 1024" by (rule less_le_trans)
  moreover have "\<bar>x * y\<bar> = of_int \<bar>m\<bar> * 2 powr of_int k"
    unfolding assms(1) by (simp add: abs_mult)
  ultimately have "\<not> 2 ^ 1024 \<le> \<bar>x * y\<bar>" by (simp only: not_le)
  with n show ?thesis unfolding float_mul_def Let_def by (simp only: if_False)
qed


lemma below_overflow:
  fixes r :: real
  assumes "\<bar>r\<bar> < 2 ^ 53"
  shows "\<not> 2 ^ 1024 \<le> \<bar>r\<bar>"
proof -
  have "(2::real) ^ 53 \<le> 2 ^ 1024" by (rule power_increasing) simp_all
  with assms have "\<bar>r\<bar> < 2 ^ 1024" by (rule less_le_trans)
  then show ?thesis by (simp only: not_le)
qed

lemma float_mul_zero [simp]: "float_mul 0 y = Some 0"
  using float_mul_exact [of 0 y 0 0] by simp

lemma float_mul_default [simp]:
  "float_mul 3 44100 = Some 132300"
  "float_mul 2 44100 = Some 88200"
  "float_mul 1 44100 = Some 44100"
  "float_mul 0 44100 = Some 0"
  "float_mul (- 1) 44100 = Some (- 44100)"
  "float_mul (5 / 2) 44100 = Some 110250"
  "float_mul (3 / 16) 44100 = Some (33075 / 4)"
  using float_mul_exact [of 3 44100 132300 0] float_mul_exact [of 2 44100 88200 0]
    float_mul_exact [of 1 44100 44100 0] float_mul_exact [of 0 44100 0 0]
    float_mul_exact [of "- 1" 44100 "- 44100" 0] float_mul_exact [of "5 / 2" 44100 110250 0]
    float_mul_exact [of "3 / 16" 44100 33075 "- 2"]
  by (simp_all add: powr_neg_numeral)

text \<open>The product \<open>2 ^ 1023 * 2\<close> is beyond the largest double: the float product is infinite.\<close>

lemma float_mul_overflow: "float_mul (2 ^ 1023) 2 = None"
proof -
  have e: "(2::real) ^ 1023 * 2 = 2 ^ 1024"
    using power_Suc2 [of "2::real" 1023] by (simp only: numeral_eq_Suc pred_numeral_simps BitM.simps)
  have "(2::real) ^ 1024 = of_int 1 * 2 powr of_int 1024"
    by (simp only: of_int_1 mult_1 of_int_numeral powr_numeral zero_le_numeral)
  then have "nearest_double (2 ^ 1024) = 2 ^ 1024"
    by (rule nearest_double_exact) simp_all
  then have "2 ^ 1024 \<le> \<bar>nearest_double (2 ^ 1023 * 2)\<bar>"
    by (simp only: e abs_numeral power_abs order_refl)
  then show ?thesis unfolding float_mul_def Let_def by (simp only: if_True)
qed

text \<open>
  \<open>-3.0 * (1/3)\<close> in doubles: the double nearest to 1/3 is \<open>6004799503160661 / 2 ^ 54\<close>, the
  exact product \<open>-(1 - 2 ^ -54)\<close> lies half-way between two doubles and is rounded to the
  even one, \<open>-1.0\<close>.
\<close>

lemma float_mul_tie: "float_mul (- 3) (6004799503160661 / 2 ^ 54) = Some (- 1)"
proof -
  let ?x = "- 3 * (6004799503160661 / 2 ^ 54) :: real"
  have "\<lfloor>log 2 \<bar>?x\<bar>\<rfloor> = - 1"
    by (rule floor_log2_eq) (simp_all add: powr_neg_numeral)
  then have "exponent ?x = - 1" by (simp add: exponent_def)
  then have u: "ulp ?x = 1 / 2 ^ 53" by (simp add: ulp_def powr_neg_numeral)
  have q: "?x / (1 / 2 ^ 53) = - 9007199254740992 + 1 / 2" by simp
  have f: "\<lfloor>- 9007199254740992 + 1 / 2 :: real\<rfloor> = - 9007199254740992" by linarith
  have "round_half_even (- 9007199254740992 + 1 / 2) = - 9007199254740992"
    unfolding round_half_even_def f by simp
  then have "nearest_double ?x = - 1"
    unfolding nearest_double_def u q by simp
  moreover have "\<not> 2 ^ 1024 \<le> \<bar>- 1 :: real\<bar>"
    by (rule below_overflow) simp
  ultimately show ?thesis unfolding float_mul_def Let_def by (simp only: if_False)
qed

text \<open>
  \<open>0.3 * 44100\<close> in doubles: the double nearest to 0.3 is \<open>5404319552844595 / 2 ^ 54\<close>, the
  exact product is just below 13230 and is rounded to \<open>13230.0\<close>.
\<close>

lemma float_mul_0_3: "float_mul (5404319552844595 / 2 ^ 54) 44100 = Some 13230"
proof -
  let ?x = "5404319552844595 / 2 ^ 54 * 44100 :: real"
  have "\<lfloor>log 2 \<bar>?x\<bar>\<rfloor> = 13"
    by (rule floor_log2_eq) simp_all
  then have "exponent ?x = 13" by (simp add: exponent_def)
  then have u: "ulp ?x = 1 / 2 ^ 39" by (simp add: ulp_def powr_neg_numeral)
  have f: "\<lfloor>?x / (1 / 2 ^ 39)\<rfloor> = 7273269417738239" by (simp add: floor_eq_iff)
  have "round_half_even (?x / (1 / 2 ^ 39)) = 7273269417738240"
    unfolding round_half_even_def f by simp
  then have "nearest_double ?x = 13230"
    unfolding nearest_double_def u by simp
  moreover have "\<not> 2 ^ 1024 \<le> \<bar>13230 :: real\<bar>"
    by (rule below_overflow) simp
  ultimately show ?thesis unfolding float_mul_def Let_def by (simp only: if_False)
qed

text \<open>\<open>2 ^ 60\<close> is a double, and so is its product with 1.\<close>

lemma float_mul_size_limit: "float_mul (2 ^ 60) 1 = Some (2 ^ 60)"
proof -
  have "(2::real) ^ 60 = of_int 1 * 2 powr of_int 60"
    by (simp only: of_int_1 mult_1 of_int_numeral powr_numeral zero_le_numeral)
  then have n: "nearest_double (2 ^ 60) = 2 ^ 60"
    by (rule nearest_double_exact) simp_all
  have "(2::real) ^ 60 < 2 ^ 1024" by (rule power_strict_increasing) simp_all
  then have "\<not> 2 ^ 1024 \<le> \<bar>(2::real) ^ 60\<bar>" by (simp only: not_le abs_numeral power_abs)
  with n show ?thesis unfolding float_mul_def Let_def by (simp only: mult_1_right if_False)
qed

section \<open>Properties of the synthesis\<close>

lemma py_int_neg_iff: "py_int x < 0 \<longleftrightarrow> x \<le> - 1"
  unfolding py_int_def by (auto simp: ceiling_less_iff) 

lemma uniform_length:
  "uniform g low high n = Inr (w, g') \<Longrightarrow> length w = nat n"
  by (auto simp: uniform_def split: if_splits)

lemma py_int_big_iff: "numeral k \<le> py_int x \<longleftrightarrow> numeral k \<le> x"
proof (cases "0 \<le> x")
  case True
  have "(numeral k \<le> \<lfloor>x\<rfloor>) = (of_int (numeral k) \<le> x)" by (rule le_floor_iff)
  with True show ?thesis by (simp add: py_int_def)
next
  case False
  then have c: "\<lceil>x\<rceil> \<le> 0" by (simp add: ceiling_le_iff)
  have i: "py_int x = \<lceil>x\<rceil>" using False by (simp add: py_int_def)
  have "(0::int) < numeral k" by simp
  with c have a: "\<not> numeral k \<le> \<lceil>x\<rceil>" by linarith
  have "(0::real) < numeral k" by simp
  with False have b: "\<not> numeral k \<le> x" by linarith
  from a b show ?thesis by (simp only: i)
qed

lemma generate_white_noise_fails_iff:
  "generate_white_noise g d sr = Inl e \<longleftrightarrow>
     (float_mul d sr = None \<and> e = OverflowError)
     \<or> (\<exists>p. float_mul d sr = Some p \<and> (p \<le> - 1 \<or> 2 ^ 60 \<le> p) \<and> e = ValueError_uniform)"
  by (auto simp: generate_white_noise_def uniform_def py_int_neg_iff py_int_big_iff
           split: option.splits)

lemma generate_white_noise_Inr:
  assumes "float_mul d sr = Some p" and "- 1 < p" and "p < 2 ^ 60"
  shows "generate_white_noise g d sr =
    Inr (map (\<lambda>i. - 1 + 2 * g i) [0..<nat (py_int p)], \<lambda>i. g (i + nat (py_int p)))"
proof -
  from assms(2) have "\<not> py_int p < 0" by (simp add: py_int_neg_iff)
  moreover from assms(3) have "\<not> 2 ^ 60 \<le> py_int p" by (simp add: py_int_big_iff)
  ultimately show ?thesis using assms(1) by (simp add: generate_white_noise_def uniform_def)
qed

lemma generate_white_noise_length:
  "generate_white_noise g d sr = Inr (w, g')
   \<Longrightarrow> \<exists>p. float_mul d sr = Some p \<and> length w = nat (py_int p)"
  by (auto simp: generate_white_noise_def dest: uniform_length split: option.splits)

lemma generate_white_noise_succeeds:
  "float_mul d sr = Some (d * sr) \<Longrightarrow> - 1 < d * sr \<Longrightarrow> d * sr < 2 ^ 60
   \<Longrightarrow> \<exists>w g'. generate_white_noise g d sr = Inr (w, g')"
  by (simp add: generate_white_noise_Inr)

lemma generate_white_noise_range:
  assumes "generate_white_noise g d sr = Inr (w, g')" and "\<forall>i. 0 \<le> g i \<and> g i < 1" and "x \<in> set w"
  shows "- 1 \<le> x \<and> x < 1"
proof -
  from assms(1) obtain n where w: "w = map (\<lambda>i. - 1 + (1 - (- 1)) * g i) [0..<n]"
    by (auto simp: generate_white_noise_def uniform_def split: if_splits option.splits)
  with assms(3) obtain i where "x = - 1 + 2 * g i" by auto
  moreover from assms(2) have "0 \<le> g i" and "g i < 1" by simp_all
  ultimately show ?thesis by simp
qed

lemma df2t_length: "length (df2t b a z xs) = length xs"
  by (induction xs arbitrary: z) (auto simp: Let_def)

lemma lfilter_length: "lfilter b a x = Inr y \<Longrightarrow> length y = length x"
  by (auto simp: lfilter_def Let_def df2t_length split: if_splits)

lemma lfilter_succeeds: "a \<noteq> [] \<Longrightarrow> hd a \<noteq> 0 \<Longrightarrow> \<exists>y. lfilter b a x = Inr y"
  by (simp add: lfilter_def Let_def)

lemma butter_Inr_iff:
  "butter D low high = Inr c \<longleftrightarrow> 0 < low \<and> low < high \<and> high < 1 \<and> c = D low high"
  by (auto simp: butter_def)

lemma butter_Inl_iff:
  "butter D low high = Inl e \<longleftrightarrow> e = ValueError_butter \<and> \<not> (0 < low \<and> low < high \<and> high < 1)"
  by (auto simp: butter_def)

lemma generate_bandpass_noise_Inr:
  assumes "generate_white_noise g d sr = Inr (w, g')"
    and "nyquist sr \<noteq> 0"
    and "butter D (lowcut c bw / nyquist sr) (highcut c bw sr / nyquist sr) = Inr (b, a)"
    and "lfilter b a w = Inr y"
  shows "generate_bandpass_noise D g c bw d sr = Inr (y, g')"
  using assms by (simp add: generate_bandpass_noise_def)

lemma generate_bandpass_noise_butter_fails:
  assumes "generate_white_noise g d sr = Inr (w, g')"
    and "nyquist sr \<noteq> 0"
    and "butter D (lowcut c bw / nyquist sr) (highcut c bw sr / nyquist sr) = Inl e"
  shows "generate_bandpass_noise D g c bw d sr = Inl e"
  using assms by (simp add: generate_bandpass_noise_def)

lemma generate_bandpass_noise_noise_fails:
  "generate_white_noise g d sr = Inl e \<Longrightarrow> generate_bandpass_noise D g c bw d sr = Inl e"
  by (simp add: generate_bandpass_noise_def)

lemma generate_bandpass_noise_length:
  assumes "generate_bandpass_noise D g c bw d sr = Inr (y, g')"
  shows "\<exists>w. generate_white_noise g d sr = Inr (w, g') \<and> length y = length w"
  using assms
  by (auto simp: generate_bandpass_noise_def dest: lfilter_length
           split: sum.splits prod.splits if_splits)

lemma normalised_band:
  assumes "0 < sr"
  shows "(0 < lowcut c bw / nyquist sr \<and> lowcut c bw / nyquist sr < highcut c bw sr / nyquist sr
            \<and> highcut c bw sr / nyquist sr < 1)
         \<longleftrightarrow> (0 < lowcut c bw \<and> lowcut c bw < highcut c bw sr \<and> highcut c bw sr < nyquist sr)"
proof -
  from assms have n: "0 < nyquist sr" by (simp add: nyquist_def)
  then show ?thesis by (simp add: divide_less_cancel zero_less_divide_iff)
qed

lemma generate_bandpass_noise_succeeds:
  assumes "usable D" and "float_mul d sr = Some (d * sr)" and "- 1 < d * sr" and "0 < sr"
    and "0 < lowcut c bw" and "lowcut c bw < highcut c bw sr" and "highcut c bw sr < nyquist sr"
    and "d * sr < 2 ^ 60"
  shows "\<exists>y g'. generate_bandpass_noise D g c bw d sr = Inr (y, g')"
proof -
  from assms(2,3,8) obtain w g' where w: "generate_white_noise g d sr = Inr (w, g')"
    using generate_white_noise_succeeds by blast
  let ?low = "lowcut c bw / nyquist sr" and ?high = "highcut c bw sr / nyquist sr"
  from assms(4) have n: "nyquist sr \<noteq> 0" by (simp add: nyquist_def)
  obtain b a where ba: "D ?low ?high = (b, a)" by (cases "D ?low ?high")
  from assms(4-7) have "butter D ?low ?high = Inr (D ?low ?high)"
    using normalised_band [of sr c bw] by (simp add: butter_Inr_iff)
  with ba have bt: "butter D ?low ?high = Inr (b, a)" by simp
  from assms(1) ba have "a \<noteq> []" "hd a \<noteq> 0"
    unfolding usable_def by (metis snd_conv)+
  then obtain y where "lfilter b a w = Inr y" using lfilter_succeeds by blast
  with w n bt show ?thesis using generate_bandpass_noise_Inr by blast
qed

lemma usable_unit_design: "usable unit_design"
  by (simp add: usable_def unit_design_def)

lemma half_rng_range: "\<forall>i. 0 \<le> half_rng i \<and> half_rng i < 1"
  by (simp add: half_rng_def)

lemma noise_length_Inl: "r = Inl e \<Longrightarrow> noise_length r = Inl e"
  by (simp add: noise_length_def)

lemma lowcut_nonneg: "0 \<le> lowcut c bw"
  by (simp add: lowcut_def)

lemma nyquist_half: "nyquist sr = sr / 2"
  by (simp add: nyquist_def)

lemma highcut_le_nyquist: "highcut c bw sr \<le> nyquist sr"
  unfolding highcut_def nyquist_half by (rule min.cobounded1)

lemma highcut_at_nyquist: "0 < bw \<Longrightarrow> highcut (sr / 2) bw sr = nyquist sr"
  unfolding highcut_def nyquist_half by (simp add: min_def)

text \<open>
  The two clamps defeat themselves. Whenever \<^verbatim>\<open>max(0, ...)\<close> takes effect the normalised
  lower cut-off is 0, and whenever \<^verbatim>\<open>min(sample_rate / 2, ...)\<close> takes effect the normalised
  upper cut-off is 1; \<^verbatim>\<open>butter\<close> rejects both, so the shaper raises in every case in which
  a clamp changed a cut-off.
\<close>

lemma lower_clamp_raises:
  assumes "generate_white_noise g d sr = Inr (w, g')" and "0 < sr" and "c - bw / 2 \<le> 0"
  shows "generate_bandpass_noise D g c bw d sr = Inl ValueError_butter"
proof -
  from assms(2) have n: "nyquist sr \<noteq> 0" by (simp add: nyquist_def)
  from assms(3) have "lowcut c bw = 0" by (simp add: lowcut_def)
  then have "butter D (lowcut c bw / nyquist sr) (highcut c bw sr / nyquist sr) = Inl ValueError_butter"
    by (simp add: butter_Inl_iff)
  from generate_bandpass_noise_butter_fails [OF assms(1) n this] show ?thesis .
qed

lemma upper_clamp_raises:
  assumes "generate_white_noise g d sr = Inr (w, g')" and "0 < sr" and "sr / 2 \<le> c + bw / 2"
  shows "generate_bandpass_noise D g c bw d sr = Inl ValueError_butter"
proof -
  from assms(2) have n: "nyquist sr \<noteq> 0" by (simp add: nyquist_def)
  from assms(3) have "highcut c bw sr = sr / 2" by (simp add: highcut_def)
  with assms(2) have "highcut c bw sr / nyquist sr = 1" by (simp add: nyquist_half)
  then have "butter D (lowcut c bw / nyquist sr) (highcut c bw sr / nyquist sr) = Inl ValueError_butter"
    by (simp add: butter_Inl_iff)
  from generate_bandpass_noise_butter_fails [OF assms(1) n this] show ?thesis .
qed

text \<open>
  Claim C1. Centre 50 Hz with bandwidth 200 Hz at 44100 Hz, 3 s: the cut-offs are clamped
  to 0 and 150, which satisfy \<open>0 \<le> lowcut < highcut \<le> Nyquist\<close>, and the shaper raises the
  ValueError of \<^verbatim>\<open>butter\<close> where the claim requires a buffer.
\<close>

theorem clamped_lowcut_raises:
  "lowcut 50 200 = 0 \<and> highcut 50 200 44100 = 150
   \<and> 0 \<le> lowcut 50 200 \<and> lowcut 50 200 < highcut 50 200 44100
   \<and> highcut 50 200 44100 \<le> nyquist 44100
   \<and> generate_bandpass_noise unit_design half_rng 50 200 3 44100 = Inl ValueError_butter"
proof -
  obtain w g' where w: "generate_white_noise half_rng 3 44100 = Inr (w, g')"
    using generate_white_noise_succeeds [of 3 44100 half_rng] by auto
  have "generate_bandpass_noise unit_design half_rng 50 200 3 44100 = Inl ValueError_butter"
    using lower_clamp_raises [OF w, of 50 200 unit_design] by simp
  then show ?thesis by (simp add: lowcut_def highcut_def nyquist_def)
qed

text \<open>
  For a positive bandwidth, cutoffs that are not in order are already outside \<open>(0, 1)\<close>
  after normalisation: the rejection does not rest on the ordering check of \<^verbatim>\<open>butter\<close>.
\<close>

lemma positive_bandwidth_range_check:
  assumes "0 < sr" and "0 < bw" and "\<not> lowcut c bw < highcut c bw sr"
  shows "lowcut c bw / nyquist sr \<le> 0 \<or> 1 \<le> lowcut c bw / nyquist sr"
proof (cases "0 < c - bw / 2")
  case False
  then have "lowcut c bw = 0" by (simp add: lowcut_def)
  then show ?thesis by simp
next
  case True
  then have l: "lowcut c bw = c - bw / 2" by (simp add: lowcut_def)
  from assms(2) have "c - bw / 2 < c + bw / 2" by simp
  with assms(3) l have "sr / 2 \<le> c - bw / 2"
    unfolding highcut_def by (simp add: min_def split: if_splits)
  with assms(1) l have "1 \<le> lowcut c bw / nyquist sr"
    by (simp add: nyquist_half)
  then show ?thesis ..
qed

text \<open>
  Claim C4. Once the noise buffer was generated, a specification whose clamped cutoffs
  violate \<open>0 \<le> lowcut < highcut \<le> Nyquist\<close>, or whose centre is the Nyquist frequency with
  a positive bandwidth, makes the filter design raise (the ValueError of \<^verbatim>\<open>butter\<close>, which
  the specification calls InvalidFilterRange); no coefficients are produced.
\<close>

theorem filter_design_rejects:
  assumes "generate_white_noise g d sr = Inr (w, g')" and "0 < sr"
    and "\<not> (0 \<le> lowcut c bw \<and> lowcut c bw < highcut c bw sr \<and> highcut c bw sr \<le> nyquist sr)
         \<or> (c = sr / 2 \<and> 0 < bw)"
  shows "generate_bandpass_noise D g c bw d sr = Inl ValueError_butter"
proof -
  from assms(2) have n: "nyquist sr \<noteq> 0" by (simp add: nyquist_def)
  from assms(3) have "\<not> lowcut c bw < highcut c bw sr \<or> \<not> highcut c bw sr < nyquist sr"
    using lowcut_nonneg [of c bw] highcut_le_nyquist [of c bw sr] highcut_at_nyquist [of bw sr]
    by fastforce
  then have "\<not> (0 < lowcut c bw \<and> lowcut c bw < highcut c bw sr \<and> highcut c bw sr < nyquist sr)"
    by blast
  with assms(2) have "butter D (lowcut c bw / nyquist sr) (highcut c bw sr / nyquist sr)
      = Inl ValueError_butter"
    using normalised_band [of sr c bw] by (simp add: butter_Inl_iff)
  from generate_bandpass_noise_butter_fails [OF assms(1) n this] show ?thesis .
qed

text \<open>
  Claim C4, witness: centre 30000 Hz above Nyquist (cutoffs 29950 and 22050), and centre at
  Nyquist with bandwidth 320 Hz.
\<close>

theorem filter_design_rejects_witness:
  "\<not> (0 \<le> lowcut 30000 100 \<and> lowcut 30000 100 < highcut 30000 100 44100
        \<and> highcut 30000 100 44100 \<le> nyquist 44100)
   \<and> noise_length (generate_bandpass_noise unit_design half_rng 30000 100 3 44100) = Inl ValueError_butter
   \<and> noise_length (generate_bandpass_noise unit_design half_rng (44100 / 2) 320 3 44100) = Inl ValueError_butter"
proof -
  obtain w g' where w: "generate_white_noise half_rng 3 44100 = Inr (w, g')"
    using generate_white_noise_succeeds [of 3 44100 half_rng] by auto
  have v: "\<not> (0 \<le> lowcut 30000 100 \<and> lowcut 30000 100 < highcut 30000 100 44100
        \<and> highcut 30000 100 44100 \<le> nyquist 44100)"
    by (simp add: lowcut_def highcut_def nyquist_def)
  have "generate_bandpass_noise unit_design half_rng 30000 100 3 44100 = Inl ValueError_butter"
    using filter_design_rejects [OF w, of 30000 100 unit_design] v by simp
  moreover
  have "generate_bandpass_noise unit_design half_rng (44100 / 2) 320 3 44100 = Inl ValueError_butter"
    using filter_design_rejects [OF w, of "44100 / 2" 320 unit_design] by simp
  ultimately show ?thesis using v by (simp add: noise_length_def)
qed

text \<open>
  Claim C7, counterexample. A duration of 0 s does not fail: \<^verbatim>\<open>int(0 * 44100)\<close> is 0 and the
  noise source returns the empty buffer.
\<close>

theorem white_noise_zero_duration_counterexample:
  "generate_white_noise half_rng 0 44100 = Inr ([], half_rng)"
  using generate_white_noise_Inr [of 0 44100 0 half_rng] by (simp add: py_int_def)

text \<open>
  Claim C7, as amended. With \<open>p\<close> the double-precision product of duration and sample
  rate, the noise source fails if and only if \<open>p\<close> is infinite (the OverflowError of
  \<^verbatim>\<open>int\<close>), or \<open>p \<le> -1\<close> or \<open>p \<ge> 2 ^ 60\<close> (the ValueError of \<^verbatim>\<open>np.random.uniform\<close> for a
  negative sample count or an array beyond numpy's largest size); for positive arguments
  with a finite product below \<open>2 ^ 60\<close> it succeeds. Allocation below the size limit is
  taken to succeed.
\<close>

theorem white_noise_failure:
  "(generate_white_noise g d sr = Inl e \<longleftrightarrow>
      (float_mul d sr = None \<and> e = OverflowError)
      \<or> (\<exists>p. float_mul d sr = Some p \<and> (p \<le> - 1 \<or> 2 ^ 60 \<le> p) \<and> e = ValueError_uniform))
   \<and> (0 < d \<and> 0 < sr \<and> (\<exists>p. float_mul d sr = Some p \<and> p < 2 ^ 60)
        \<longrightarrow> (\<exists>w g'. generate_white_noise g d sr = Inr (w, g')))"
proof (intro conjI impI)
  show "generate_white_noise g d sr = Inl e \<longleftrightarrow>
      (float_mul d sr = None \<and> e = OverflowError)
      \<or> (\<exists>p. float_mul d sr = Some p \<and> (p \<le> - 1 \<or> 2 ^ 60 \<le> p) \<and> e = ValueError_uniform)"
    by (rule generate_white_noise_fails_iff)
next
  assume a: "0 < d \<and> 0 < sr \<and> (\<exists>p. float_mul d sr = Some p \<and> p < 2 ^ 60)"
  then obtain p where p: "float_mul d sr = Some p" and b: "p < 2 ^ 60" by auto
  from a have "0 \<le> d * sr" by simp
  then have "0 \<le> nearest_double (d * sr)" by (rule nearest_double_nonneg)
  with p have "- 1 < p"
    unfolding float_mul_def Let_def by (auto split: if_splits)
  with p b show "\<exists>w g'. generate_white_noise g d sr = Inr (w, g')"
    by (simp add: generate_white_noise_Inr)
qed

text \<open>
  Claim C7, witness: 3 s at 44100 Hz succeeds with 132300 samples; -1 s raises ValueError;
  \<open>-3.0\<close> times the double nearest to 1/3 is rounded to \<open>-1.0\<close> and raises ValueError;
  \<open>2 ^ 60\<close> samples raise ValueError; the float \<open>2 ^ 1023\<close> times 2 is infinite and raises
  OverflowError.
\<close>

theorem white_noise_failure_witness:
  "(0::real) < 3 \<and> (0::real) < 44100 \<and> float_mul 3 44100 = Some 132300 \<and> (132300::real) < 2 ^ 60
   \<and> noise_length (generate_white_noise half_rng 3 44100) = Inr 132300
   \<and> generate_white_noise half_rng (- 1) 44100 = Inl ValueError_uniform
   \<and> generate_white_noise half_rng (- 3) (6004799503160661 / 2 ^ 54) = Inl ValueError_uniform
   \<and> generate_white_noise half_rng (2 ^ 60) 1 = Inl ValueError_uniform
   \<and> generate_white_noise half_rng (2 ^ 1023) 2 = Inl OverflowError"
proof -
  have h: "float_mul 3 44100 = Some 132300" "(132300::real) < 2 ^ 60" by simp_all
  from white_noise_failure [of half_rng 3 44100 ValueError_uniform] h
  obtain w g' where w: "generate_white_noise half_rng 3 44100 = Inr (w, g')" by auto
  have "length w = 132300"
    using generate_white_noise_length [OF w] by (simp add: py_int_def)
  with w have a: "noise_length (generate_white_noise half_rng 3 44100) = Inr 132300"
    by (simp add: noise_length_def)
  from white_noise_failure [of half_rng "- 1" 44100 ValueError_uniform]
  have b: "generate_white_noise half_rng (- 1) 44100 = Inl ValueError_uniform" by simp
  from white_noise_failure [of half_rng "- 3" "6004799503160661 / 2 ^ 54" ValueError_uniform]
  have c: "generate_white_noise half_rng (- 3) (6004799503160661 / 2 ^ 54) = Inl ValueError_uniform"
    by (simp only: float_mul_tie) simp
  from white_noise_failure [of half_rng "2 ^ 60" 1 ValueError_uniform]
  have l: "generate_white_noise half_rng (2 ^ 60) 1 = Inl ValueError_uniform"
    by (simp only: float_mul_size_limit) simp
  from white_noise_failure [of half_rng "2 ^ 1023" 2 OverflowError]
  have d: "generate_white_noise half_rng (2 ^ 1023) 2 = Inl OverflowError"
    by (simp only: float_mul_overflow) simp
  from h a b c l d show ?thesis by simp
qed

text \<open>
  Claim C3, counterexample. At 3/16 s and 44100 Hz the product is 8268.75, a double: the
  buffer has \<^verbatim>\<open>int(8268.75)\<close> = 8268 samples, and rounding gives 8269.
\<close>

theorem white_noise_sample_count_counterexample:
  "noise_length (generate_white_noise half_rng (3 / 16) 44100) = Inr 8268
   \<and> round (3 / 16 * 44100 :: real) = 8269"
proof -
  have "generate_white_noise half_rng (3 / 16) 44100
      = Inr (map (\<lambda>i. - 1 + 2 * half_rng i) [0..<nat (py_int (33075 / 4))],
             \<lambda>i. half_rng (i + nat (py_int (33075 / 4))))"
    by (rule generate_white_noise_Inr) simp_all
  moreover have "nat (py_int (33075 / 4)) = 8268" by (simp add: py_int_def)
  moreover have "round (3 / 16 * 44100 :: real) = 8269"
    by (simp add: round_def)
  ultimately show ?thesis by (simp add: noise_length_def)
qed

text \<open>
  Claim C3, as amended. For positive duration and sample rate whose double-precision
  product \<open>p\<close> is finite and below the size limit \<open>2 ^ 60\<close>, the noise source returns \<open>\<lfloor>p\<rfloor>\<close>
  samples: the truncation of the rounded product, not its rounding. Sample \<open>i\<close> is \<open>-1 + 2 u\<close> for the generator's raw draw
  \<open>u\<close> number \<open>i\<close>, the generator is left after the draws used, every sample is in \<open>[-1, 1)\<close>
  when the raw draws are in \<open>[0, 1)\<close>, and a successful shaper call returns a buffer of
  that same length.
\<close>

theorem white_noise_sample_count:
  assumes "0 < d" and "0 < sr" and "float_mul d sr = Some p" and "p < 2 ^ 60"
  shows "generate_white_noise g d sr
           = Inr (map (\<lambda>i. - 1 + 2 * g i) [0..<nat \<lfloor>p\<rfloor>], \<lambda>i. g (i + nat \<lfloor>p\<rfloor>))
         \<and> ((\<forall>i. 0 \<le> g i \<and> g i < 1)
              \<longrightarrow> (\<forall>x\<in>set (map (\<lambda>i. - 1 + 2 * g i) [0..<nat \<lfloor>p\<rfloor>]). - 1 \<le> x \<and> x < 1))
         \<and> (\<forall>y g''. generate_bandpass_noise D g c bw d sr = Inr (y, g'') \<longrightarrow> length y = nat \<lfloor>p\<rfloor>)"
proof -
  from assms(1,2) have "0 \<le> d * sr" by simp
  then have "0 \<le> nearest_double (d * sr)" by (rule nearest_double_nonneg)
  with assms(3) have p: "0 \<le> p"
    unfolding float_mul_def Let_def by (auto split: if_splits)
  then have i: "py_int p = \<lfloor>p\<rfloor>" by (simp add: py_int_def)
  from p have "- 1 < p" by simp
  from generate_white_noise_Inr [OF assms(3) this assms(4), of g]
  have w: "generate_white_noise g d sr
           = Inr (map (\<lambda>i. - 1 + 2 * g i) [0..<nat \<lfloor>p\<rfloor>], \<lambda>i. g (i + nat \<lfloor>p\<rfloor>))"
    by (simp only: i)
  have r: "(\<forall>i. 0 \<le> g i \<and> g i < 1)
      \<longrightarrow> (\<forall>x\<in>set (map (\<lambda>i. - 1 + 2 * g i) [0..<nat \<lfloor>p\<rfloor>]). - 1 \<le> x \<and> x < 1)"
    using generate_white_noise_range [OF w] by blast
  have "\<forall>y g''. generate_bandpass_noise D g c bw d sr = Inr (y, g'') \<longrightarrow> length y = nat \<lfloor>p\<rfloor>"
    using w by (auto dest!: generate_bandpass_noise_length)
  with w r show ?thesis by blast
qed

text \<open>
  Claim C3, witness: 2.5 s at 44100 Hz gives 110250 samples, before and after shaping; the
  double nearest to 0.3 s gives 13230 samples, its product with 44100 being rounded up to
  \<open>13230.0\<close> before the truncation.
\<close>

theorem white_noise_sample_count_witness:
  "(0::real) < 5 / 2 \<and> (0::real) < 44100 \<and> float_mul (5 / 2) 44100 = Some 110250
   \<and> (110250::real) < 2 ^ 60
   \<and> noise_length (generate_white_noise half_rng (5 / 2) 44100) = Inr 110250
   \<and> noise_length (generate_bandpass_noise unit_design half_rng 2000 320 (5 / 2) 44100) = Inr 110250
   \<and> float_mul (5404319552844595 / 2 ^ 54) 44100 = Some 13230
   \<and> noise_length (generate_white_noise half_rng (5404319552844595 / 2 ^ 54) 44100) = Inr 13230"
proof -
  have f: "float_mul (5 / 2) 44100 = Some 110250" by simp
  have pos: "(0::real) < 5 / 2" "(0::real) < 44100" "(110250::real) < 2 ^ 60" by simp_all
  from white_noise_sample_count [OF pos(1,2) f pos(3), of half_rng unit_design 2000 320]
  have w: "generate_white_noise half_rng (5 / 2) 44100
      = Inr (map (\<lambda>i. - 1 + 2 * half_rng i) [0..<nat \<lfloor>110250::real\<rfloor>],
             \<lambda>i. half_rng (i + nat \<lfloor>110250::real\<rfloor>))"
    and same: "\<forall>y g''. generate_bandpass_noise unit_design half_rng 2000 320 (5 / 2) 44100 = Inr (y, g'')
                 \<longrightarrow> length y = nat \<lfloor>110250::real\<rfloor>"
    by blast+
  from w have a: "noise_length (generate_white_noise half_rng (5 / 2) 44100) = Inr 110250"
    by (simp add: noise_length_def)
  obtain y g'' where y: "generate_bandpass_noise unit_design half_rng 2000 320 (5 / 2) 44100 = Inr (y, g'')"
    using generate_bandpass_noise_succeeds [OF usable_unit_design, of "5 / 2" 44100 2000 320 half_rng]
    by (auto simp: lowcut_def highcut_def nyquist_def)
  with same have "length y = 110250" by simp
  with y have b: "noise_length (generate_bandpass_noise unit_design half_rng 2000 320 (5 / 2) 44100)
      = Inr 110250"
    by (simp add: noise_length_def)
  have "(0::real) < 5404319552844595 / 2 ^ 54" and "(0::real) < 44100"
    and "(13230::real) < 2 ^ 60" by simp_all
  from white_noise_sample_count [OF this(1,2) float_mul_0_3 this(3), of half_rng unit_design 2000 320]
  have "generate_white_noise half_rng (5404319552844595 / 2 ^ 54) 44100
      = Inr (map (\<lambda>i. - 1 + 2 * half_rng i) [0..<nat \<lfloor>13230::real\<rfloor>],
             \<lambda>i. half_rng (i + nat \<lfloor>13230::real\<rfloor>))"
    by blast
  then have c: "noise_length (generate_white_noise half_rng (5404319552844595 / 2 ^ 54) 44100) = Inr 13230"
    by (simp add: noise_length_def)
  from f pos a b c float_mul_0_3 show ?thesis by simp
qed

section \<open>Properties of the matching session\<close>

lemma octave_factor_cube: "octave_factor ^ 3 = 2"
proof -
  have "octave_factor ^ 3 = (2 powr (1 / 3)) powr (real 3)"
    unfolding octave_factor_def by (subst powr_realpow) simp_all
  also have "\<dots> = 2 powr 1" by (simp add: powr_powr)
  finally show ?thesis by simp
qed

lemma octave_factor_pos: "0 < octave_factor"
  by (simp add: octave_factor_def)

lemma octave_factor_gt: "0 \<le> x \<Longrightarrow> x ^ 3 < 2 \<Longrightarrow> x < octave_factor"
  using octave_factor_cube octave_factor_pos
  by (metis less_eq_real_def power_less_imp_less_base)

lemma octave_factor_lt: "2 < x ^ 3 \<Longrightarrow> 0 \<le> x \<Longrightarrow> octave_factor < x"
  using octave_factor_cube octave_factor_pos
  by (metis power_less_imp_less_base)

lemma octave_factor_bounds: "1259921 / 1000000 < octave_factor" "octave_factor < 1259922 / 1000000"
  by (rule octave_factor_gt; simp add: power3_eq_cube)
     (rule octave_factor_lt; simp add: power3_eq_cube)

lemma snd_emit [simp]: "snd (emit es r) = snd r"
  by (simp add: emit_def)

lemma fst_emit [simp]: "fst (emit es r) = es @ fst r"
  by (simp add: emit_def)

lemma loop_fails:
  "generate_bandpass_noise D g (centre_freq s) (bandwidth s) (duration_sec s) (sample_rate s) = Inl e
   \<Longrightarrow> loop D g s ins = ([], Inl e)"
  by (cases ins) simp_all

lemma loop_Nil:
  "generate_bandpass_noise D g (centre_freq s) (bandwidth s) (duration_sec s) (sample_rate s) = Inr (w, g')
   \<Longrightarrow> loop D g s [] = (Played w (sample_rate s) # menu, Inl EOFError)"
  by simp

lemma loop_Cons:
  assumes "generate_bandpass_noise D g (centre_freq s) (bandwidth s) (duration_sec s) (sample_rate s) = Inr (w, g')"
  shows "loop D g s (u # ins) =
     (if u = ''0'' then (Played w (sample_rate s) # menu @ [Read u], Inr s)
      else emit (Played w (sample_rate s) # menu @ [Read u] @ (if recognised u then [] else [invalid_input]))
                (loop D g' (transition u s) ins))"
  using assms by (simp add: transition_def recognised_def Let_def emit_def)

lemma plays_append [simp]: "plays (es @ fs) = plays es + plays fs"
  by (induction es rule: plays.induct) simp_all

lemma plays_menu [simp]: "plays menu = 0"
  by (simp add: menu_def)

lemma plays_invalid_input [simp]: "plays [invalid_input] = 0"
  by (simp add: invalid_input_def)

lemma play_then_read_menu [simp]: "play_then_read p (menu @ es) = play_then_read p es"
  by (simp add: menu_def)

lemma play_then_read_turn:
  "play_then_read p (Played w r # menu @ [Read u] @ xs @ es)
     = play_then_read False (xs @ es)"
  by simp

lemma play_then_read_loop: "play_then_read p (fst (loop D g s ins))"
proof (induction ins arbitrary: p g s)
  case Nil
  show ?case
    by (cases "generate_bandpass_noise D g (centre_freq s) (bandwidth s) (duration_sec s) (sample_rate s)")
       (auto simp: menu_def)
next
  case (Cons u ins)
  show ?case
  proof (cases "generate_bandpass_noise D g (centre_freq s) (bandwidth s) (duration_sec s) (sample_rate s)")
    case (Inl e)
    then show ?thesis by (simp add: loop_fails)
  next
    case (Inr r)
    obtain w g' where r: "r = (w, g')" by (cases r)
    from Inr r have step: "loop D g s (u # ins) =
       (if u = ''0'' then (Played w (sample_rate s) # menu @ [Read u], Inr s)
        else emit (Played w (sample_rate s) # menu @ [Read u] @ (if recognised u then [] else [invalid_input]))
                  (loop D g' (transition u s) ins))"
      by (simp only: loop_Cons)
    show ?thesis
    proof (cases "u = ''0''")
      case True
      with step show ?thesis by simp
    next
      case False
      with step Cons.IH [of False g' "transition u s"] show ?thesis
        by (simp add: invalid_input_def)
    qed
  qed
qed

lemma sample_rate_transition [simp]: "sample_rate (transition u s) = sample_rate s"
  by (simp add: transition_def)

lemma loop_sample_rate:
  "snd (loop D g s ins) = Inr s' \<Longrightarrow> sample_rate s' = sample_rate s"
proof (induction ins arbitrary: g s)
  case Nil
  then show ?case
    by (cases "generate_bandpass_noise D g (centre_freq s) (bandwidth s) (duration_sec s) (sample_rate s)")
       auto
next
  case (Cons u ins)
  show ?case
  proof (cases "generate_bandpass_noise D g (centre_freq s) (bandwidth s) (duration_sec s) (sample_rate s)")
    case (Inl e)
    with Cons.prems show ?thesis by (simp add: loop_fails)
  next
    case (Inr r)
    obtain w g' where r: "r = (w, g')" by (cases r)
    from Inr r have step: "loop D g s (u # ins) =
       (if u = ''0'' then (Played w (sample_rate s) # menu @ [Read u], Inr s)
        else emit (Played w (sample_rate s) # menu @ [Read u] @ (if recognised u then [] else [invalid_input]))
                  (loop D g' (transition u s) ins))"
      by (simp only: loop_Cons)
    show ?thesis
    proof (cases "u = ''0''")
      case True
      with step Cons.prems show ?thesis by simp
    next
      case False
      with step Cons.prems have "snd (loop D g' (transition u s) ins) = Inr s'" by simp
      from Cons.IH [OF this] show ?thesis by simp
    qed
  qed
qed

lemma rates_append [simp]: "rates (es @ fs) = rates es @ rates fs"
  by (induction es rule: rates.induct) simp_all

lemma rates_menu [simp]: "rates menu = []"
  by (simp add: menu_def)

lemma loop_rates: "set (rates (fst (loop D g s ins))) \<subseteq> {sample_rate s}"
proof (induction ins arbitrary: g s)
  case Nil
  show ?case
    by (cases "generate_bandpass_noise D g (centre_freq s) (bandwidth s) (duration_sec s) (sample_rate s)")
       auto
next
  case (Cons u ins)
  show ?case
  proof (cases "generate_bandpass_noise D g (centre_freq s) (bandwidth s) (duration_sec s) (sample_rate s)")
    case (Inl e)
    then show ?thesis by (simp add: loop_fails)
  next
    case (Inr r)
    obtain w g' where r: "r = (w, g')" by (cases r)
    from Inr r have step: "loop D g s (u # ins) =
       (if u = ''0'' then (Played w (sample_rate s) # menu @ [Read u], Inr s)
        else emit (Played w (sample_rate s) # menu @ [Read u] @ (if recognised u then [] else [invalid_input]))
                  (loop D g' (transition u s) ins))"
      by (simp only: loop_Cons)
    show ?thesis
    proof (cases "u = ''0''")
      case True
      with step show ?thesis by simp
    next
      case False
      with step Cons.IH [of g' "transition u s"] show ?thesis
        by (simp add: invalid_input_def)
    qed
  qed
qed

declare loop.simps [simp del]

lemma emit_emit [simp]: "emit es (emit fs r) = emit (es @ fs) r"
  by (simp add: emit_def)

lemma generate_white_noise_empty: "generate_white_noise g 0 sr = Inr ([], g)"
  using generate_white_noise_Inr [of 0 sr 0 g] by (simp add: py_int_def)

lemma generate_bandpass_noise_empty:
  assumes "usable D" and "0 < sr"
    and "0 < lowcut c bw" and "lowcut c bw < highcut c bw sr" and "highcut c bw sr < nyquist sr"
  shows "generate_bandpass_noise D g c bw 0 sr = Inr ([], g)"
proof -
  from assms obtain y g' where y: "generate_bandpass_noise D g c bw 0 sr = Inr (y, g')"
    using generate_bandpass_noise_succeeds [of D 0 sr c bw g] by auto
  from generate_bandpass_noise_length [OF y] have "g' = g" "y = []"
    by (auto simp: generate_white_noise_empty)
  with y show ?thesis by simp
qed

text \<open>
  The default centre and bandwidth are synthesisable for every duration from 0 s on whose
  product with 44100 is a double below the size limit.
\<close>

lemma default_band:
  "0 < lowcut 2000 320" "lowcut 2000 320 < highcut 2000 320 44100"
  "highcut 2000 320 44100 < nyquist 44100"
  by (simp_all add: lowcut_def highcut_def nyquist_def)

lemma loop_default_step:
  assumes "usable D" and "0 \<le> d" and "u \<noteq> ''0''"
    and "float_mul d 44100 = Some (d * 44100)" and "d * 44100 < 2 ^ 60"
  shows "\<exists>w g'. generate_bandpass_noise D g 2000 320 d 44100 = Inr (w, g')
     \<and> loop D g \<lparr>centre_freq = 2000, bandwidth = 320, sample_rate = 44100, duration_sec = d\<rparr> (u # ins) =
       emit (Played w 44100 # menu @ [Read u] @ (if recognised u then [] else [invalid_input]))
            (loop D g' (transition u \<lparr>centre_freq = 2000, bandwidth = 320, sample_rate = 44100, duration_sec = d\<rparr>) ins)"
proof -
  let ?s = "\<lparr>centre_freq = 2000, bandwidth = 320, sample_rate = 44100, duration_sec = d\<rparr>"
  from assms(2) have "- 1 < d * 44100" by simp
  with assms(1,4,5) obtain w g' where w: "generate_bandpass_noise D g 2000 320 d 44100 = Inr (w, g')"
    using generate_bandpass_noise_succeeds [of D d 44100 2000 320 g] default_band by auto
  then have "generate_bandpass_noise D g (centre_freq ?s) (bandwidth ?s) (duration_sec ?s) (sample_rate ?s)
      = Inr (w, g')" by simp
  from loop_Cons [OF this, of u ins] assms(3)
  have "loop D g ?s (u # ins) =
       emit (Played w 44100 # menu @ [Read u] @ (if recognised u then [] else [invalid_input]))
            (loop D g' (transition u ?s) ins)" by simp
  with w show ?thesis by blast
qed

lemma loop_default_finish:
  assumes "usable D" and "0 \<le> d"
    and "float_mul d 44100 = Some (d * 44100)" and "d * 44100 < 2 ^ 60"
  shows "\<exists>w g'. generate_bandpass_noise D g 2000 320 d 44100 = Inr (w, g')
     \<and> loop D g \<lparr>centre_freq = 2000, bandwidth = 320, sample_rate = 44100, duration_sec = d\<rparr> (''0'' # ins)
         = (Played w 44100 # menu @ [Read ''0''],
            Inr \<lparr>centre_freq = 2000, bandwidth = 320, sample_rate = 44100, duration_sec = d\<rparr>)"
proof -
  let ?s = "\<lparr>centre_freq = 2000, bandwidth = 320, sample_rate = 44100, duration_sec = d\<rparr>"
  from assms(2) have "- 1 < d * 44100" by simp
  with assms(1,3,4) obtain w g' where w: "generate_bandpass_noise D g 2000 320 d 44100 = Inr (w, g')"
    using generate_bandpass_noise_succeeds [of D d 44100 2000 320 g] default_band by auto
  then have "generate_bandpass_noise D g (centre_freq ?s) (bandwidth ?s) (duration_sec ?s) (sample_rate ?s)
      = Inr (w, g')" by simp
  from loop_Cons [OF this, of "''0''" ins]
  have "loop D g ?s (''0'' # ins) = (Played w 44100 # menu @ [Read ''0''], Inr ?s)" by simp
  with w show ?thesis by blast
qed

lemma decrease_duration:
  "transition ''6'' \<lparr>centre_freq = c, bandwidth = bw, sample_rate = sr, duration_sec = d\<rparr>
     = \<lparr>centre_freq = c, bandwidth = bw, sample_rate = sr, duration_sec = d - 1\<rparr>"
  by (simp add: transition_def)

lemma loop_negative_duration:
  "loop D g \<lparr>centre_freq = c, bandwidth = bw, sample_rate = 44100, duration_sec = - 1\<rparr> ins
     = ([], Inl ValueError_uniform)"
proof -
  have "generate_white_noise g (- 1) 44100 = Inl ValueError_uniform"
    by (simp add: generate_white_noise_fails_iff)
  then have "generate_bandpass_noise D g c bw (- 1) 44100 = Inl ValueError_uniform"
    by (rule generate_bandpass_noise_noise_fails)
  then show ?thesis by (simp add: loop_fails)
qed

text \<open>Three and four times \<^verbatim>\<open>6\<close> from the defaults.\<close>

lemma three_decreases:
  assumes "usable D"
  obtains es g' where
    "loop D g initial_state (''6'' # ''6'' # ''6'' # ins) =
       emit es (loop D g' \<lparr>centre_freq = 2000, bandwidth = 320, sample_rate = 44100, duration_sec = 0\<rparr> ins)"
    "plays es = 3"
proof -
  let ?s = "\<lambda>d::real. \<lparr>centre_freq = 2000, bandwidth = 320, sample_rate = 44100, duration_sec = d\<rparr>"
  obtain w1 g1 where 1: "loop D g (?s 3) (''6'' # ''6'' # ''6'' # ins) =
      emit (Played w1 44100 # menu @ [Read ''6'']) (loop D g1 (?s 2) (''6'' # ''6'' # ins))"
    using loop_default_step [OF assms, of 3 "''6''" g "''6'' # ''6'' # ins"]
    by (auto simp: decrease_duration recognised_def)
  obtain w2 g2 where 2: "loop D g1 (?s 2) (''6'' # ''6'' # ins) =
      emit (Played w2 44100 # menu @ [Read ''6'']) (loop D g2 (?s 1) (''6'' # ins))"
    using loop_default_step [OF assms, of 2 "''6''" g1 "''6'' # ins"]
    by (auto simp: decrease_duration recognised_def)
  obtain w3 g3 where 3: "loop D g2 (?s 1) (''6'' # ins) =
      emit (Played w3 44100 # menu @ [Read ''6'']) (loop D g3 (?s 0) ins)"
    using loop_default_step [OF assms, of 1 "''6''" g2 ins]
    by (auto simp: decrease_duration recognised_def)
  let ?es = "(Played w1 44100 # menu @ [Read ''6'']) @ (Played w2 44100 # menu @ [Read ''6''])
               @ (Played w3 44100 # menu @ [Read ''6''])"
  have "loop D g initial_state (''6'' # ''6'' # ''6'' # ins) = emit ?es (loop D g3 (?s 0) ins)"
    unfolding initial_state_def 1 2 3 by (simp only: emit_emit append_assoc)
  moreover have "plays ?es = 3" by simp
  ultimately show ?thesis using that by blast
qed

lemma four_decreases:
  assumes "usable D"
  shows "\<exists>es. loop D g initial_state (''6'' # ''6'' # ''6'' # ''6'' # ins) = (es, Inl ValueError_uniform)
           \<and> plays es = 4"
proof -
  let ?s = "\<lambda>d::real. \<lparr>centre_freq = 2000, bandwidth = 320, sample_rate = 44100, duration_sec = d\<rparr>"
  obtain es g3 where 3: "loop D g initial_state (''6'' # ''6'' # ''6'' # ''6'' # ins) =
      emit es (loop D g3 (?s 0) (''6'' # ins))" and p: "plays es = 3"
    using three_decreases [OF assms, of g "''6'' # ins"] by blast
  obtain w4 g4 where 4: "loop D g3 (?s 0) (''6'' # ins) =
      emit (Played w4 44100 # menu @ [Read ''6'']) (loop D g4 (?s (- 1)) ins)"
    using loop_default_step [OF assms, of 0 "''6''" g3 ins]
    by (auto simp: decrease_duration recognised_def)
  have "loop D g initial_state (''6'' # ''6'' # ''6'' # ''6'' # ins)
      = (es @ Played w4 44100 # menu @ [Read ''6''], Inl ValueError_uniform)"
    unfolding 3 4 loop_negative_duration by (simp add: emit_def)
  moreover from p have "plays (es @ Played w4 44100 # menu @ [Read ''6'']) = 4" by simp
  ultimately show ?thesis by blast
qed

lemma tinnitus_matching_loop:
  "loop D g initial_state ins = (es, out)
   \<Longrightarrow> tinnitus_matching D g ins = (Printed ''Starting tinnitus matching.'' # es, out)"
  by (simp add: tinnitus_matching_def emit_def)

text \<open>
  Claim C2, counterexample. Four times \<^verbatim>\<open>6\<close> from the defaults: the stimulus is played four
  times (durations 3, 2, 1 and 0 s), the fifth synthesis, at -1 s, raises, and the session
  ends with that error; the lines \<^verbatim>\<open>7\<close> and \<^verbatim>\<open>0\<close> are never read.
\<close>
theorem failure_not_caught_counterexample:
  "snd (tinnitus_matching unit_design half_rng [''6'', ''6'', ''6'', ''6'', ''7'', ''0''])
     = Inl ValueError_uniform
   \<and> plays (fst (tinnitus_matching unit_design half_rng [''6'', ''6'', ''6'', ''6'', ''7'', ''0''])) = 4"
proof -
  obtain es where "loop unit_design half_rng initial_state [''6'', ''6'', ''6'', ''6'', ''7'', ''0'']
      = (es, Inl ValueError_uniform)" and "plays es = 4"
    using four_decreases [OF usable_unit_design, of half_rng "[''7'', ''0'']"] by blast
  then show ?thesis by (simp add: tinnitus_matching_loop)
qed

text \<open>
  Claim C2, as amended. A failed synthesis is not caught: the loop ends with the error, no
  further line is read and no snapshot is returned. Three times \<^verbatim>\<open>6\<close> from the defaults
  lead to duration 0, where the synthesis succeeds with an empty buffer and the loop goes
  on; a fourth \<^verbatim>\<open>6\<close> leads to duration -1, where the noise source raises and the session
  ends, after four playbacks.
\<close>
theorem synthesis_failure_ends_session:
  "(generate_bandpass_noise D g (centre_freq s) (bandwidth s) (duration_sec s) (sample_rate s) = Inl e
      \<longrightarrow> loop D g s ins = ([], Inl e))
   \<and> (usable D \<longrightarrow>
        (\<exists>es g'. tinnitus_matching D g (''6'' # ''6'' # ''6'' # ins)
              = emit es (loop D g' (initial_state\<lparr>duration_sec := 0\<rparr>) ins)
            \<and> plays es = 3
            \<and> generate_bandpass_noise D g' 2000 320 0 44100 = Inr ([], g'))
        \<and> (\<exists>es. tinnitus_matching D g (''6'' # ''6'' # ''6'' # ''6'' # ins) = (es, Inl ValueError_uniform)
              \<and> plays es = 4))"
proof (intro conjI impI)
  assume "generate_bandpass_noise D g (centre_freq s) (bandwidth s) (duration_sec s) (sample_rate s) = Inl e"
  then show "loop D g s ins = ([], Inl e)" by (rule loop_fails)
next
  assume u: "usable D"
  obtain es g' where l: "loop D g initial_state (''6'' # ''6'' # ''6'' # ins) =
       emit es (loop D g' \<lparr>centre_freq = 2000, bandwidth = 320, sample_rate = 44100, duration_sec = 0\<rparr> ins)"
    and p: "plays es = 3"
    using three_decreases [OF u, of g ins] by blast
  have s0: "initial_state\<lparr>duration_sec := 0\<rparr>
      = \<lparr>centre_freq = 2000, bandwidth = 320, sample_rate = 44100, duration_sec = 0\<rparr>"
    by (simp add: initial_state_def)
  have "tinnitus_matching D g (''6'' # ''6'' # ''6'' # ins)
      = emit (Printed ''Starting tinnitus matching.'' # es) (loop D g' (initial_state\<lparr>duration_sec := 0\<rparr>) ins)"
    unfolding tinnitus_matching_def l s0 by simp
  moreover from p have "plays (Printed ''Starting tinnitus matching.'' # es) = 3" by simp
  moreover have "generate_bandpass_noise D g' 2000 320 0 44100 = Inr ([], g')"
    using generate_bandpass_noise_empty [OF u _ default_band] by simp
  ultimately show "\<exists>es g'. tinnitus_matching D g (''6'' # ''6'' # ''6'' # ins)
              = emit es (loop D g' (initial_state\<lparr>duration_sec := 0\<rparr>) ins)
            \<and> plays es = 3
            \<and> generate_bandpass_noise D g' 2000 320 0 44100 = Inr ([], g')"
    by blast
next
  assume u: "usable D"
  obtain es where "loop D g initial_state (''6'' # ''6'' # ''6'' # ''6'' # ins) = (es, Inl ValueError_uniform)"
    and "plays es = 4"
    using four_decreases [OF u, of g ins] by blast
  then have "tinnitus_matching D g (''6'' # ''6'' # ''6'' # ''6'' # ins)
      = (Printed ''Starting tinnitus matching.'' # es, Inl ValueError_uniform)
      \<and> plays (Printed ''Starting tinnitus matching.'' # es) = 4"
    by (simp add: tinnitus_matching_loop)
  then show "\<exists>es. tinnitus_matching D g (''6'' # ''6'' # ''6'' # ''6'' # ins) = (es, Inl ValueError_uniform)
              \<and> plays es = 4"
    by blast
qed

text \<open>
  Claim C2, witness: a loop entered at duration -1 ends at once; \<^verbatim>\<open>6 6 6 0\<close> returns the
  snapshot with duration 0; \<^verbatim>\<open>6 6 6 6 0\<close> ends with the error.
\<close>
theorem synthesis_failure_ends_session_witness:
  "usable unit_design
   \<and> generate_bandpass_noise unit_design half_rng 2000 320 (- 1) 44100 = Inl ValueError_uniform
   \<and> loop unit_design half_rng (initial_state\<lparr>duration_sec := - 1\<rparr>) [''5'', ''0''] = ([], Inl ValueError_uniform)
   \<and> snd (tinnitus_matching unit_design half_rng [''6'', ''6'', ''6'', ''0''])
       = Inr (initial_state\<lparr>duration_sec := 0\<rparr>)
   \<and> snd (tinnitus_matching unit_design half_rng [''6'', ''6'', ''6'', ''6'', ''0''])
       = Inl ValueError_uniform"
proof -
  let ?s = "initial_state\<lparr>duration_sec := - 1\<rparr>"
  have f: "generate_bandpass_noise unit_design half_rng 2000 320 (- 1) 44100 = Inl ValueError_uniform"
    by (rule generate_bandpass_noise_noise_fails) (simp add: generate_white_noise_fails_iff)
  then have f': "generate_bandpass_noise unit_design half_rng (centre_freq ?s) (bandwidth ?s)
      (duration_sec ?s) (sample_rate ?s) = Inl ValueError_uniform"
    by (simp add: initial_state_def)
  note t = synthesis_failure_ends_session
  from t [of unit_design half_rng ?s ValueError_uniform "[''5'', ''0'']"] f'
  have a: "loop unit_design half_rng ?s [''5'', ''0''] = ([], Inl ValueError_uniform)" by blast
  from t [of unit_design half_rng ?s ValueError_uniform "[''0'']"] usable_unit_design
  obtain es g' where r: "tinnitus_matching unit_design half_rng [''6'', ''6'', ''6'', ''0'']
        = emit es (loop unit_design g' (initial_state\<lparr>duration_sec := 0\<rparr>) [''0''])"
    and e: "generate_bandpass_noise unit_design g' 2000 320 0 44100 = Inr ([], g')"
    by blast
  from e have "generate_bandpass_noise unit_design g' (centre_freq (initial_state\<lparr>duration_sec := 0\<rparr>))
      (bandwidth (initial_state\<lparr>duration_sec := 0\<rparr>)) (duration_sec (initial_state\<lparr>duration_sec := 0\<rparr>))
      (sample_rate (initial_state\<lparr>duration_sec := 0\<rparr>)) = Inr ([], g')"
    by (simp add: initial_state_def)
  from loop_Cons [OF this, of "''0''" "[]"] r
  have b: "snd (tinnitus_matching unit_design half_rng [''6'', ''6'', ''6'', ''0''])
       = Inr (initial_state\<lparr>duration_sec := 0\<rparr>)" by simp
  from t [of unit_design half_rng ?s ValueError_uniform "[''0'']"] usable_unit_design
  have c: "snd (tinnitus_matching unit_design half_rng [''6'', ''6'', ''6'', ''6'', ''0''])
       = Inl ValueError_uniform" by auto
  from usable_unit_design f a b c show ?thesis by blast
qed

lemma loop_state_eq:
  "generate_bandpass_noise D g (centre_freq s) (bandwidth s) (duration_sec s) (sample_rate s) = Inr (w, g')
   \<Longrightarrow> u \<noteq> ''0'' \<Longrightarrow> recognised u \<Longrightarrow> transition u s = s'
   \<Longrightarrow> loop D g s (u # ins) = emit (Played w (sample_rate s) # menu @ [Read u]) (loop D g' s' ins)"
  by (simp add: loop_Cons)

lemma loop_finish:
  "generate_bandpass_noise D g (centre_freq s) (bandwidth s) (duration_sec s) (sample_rate s) = Inr (w, g')
   \<Longrightarrow> loop D g s (''0'' # ins) = (Played w (sample_rate s) # menu @ [Read ''0''], Inr s)"
  by (simp add: loop_Cons)

lemma octave_factor_coarse: "1 < octave_factor" "octave_factor < 2"
  using octave_factor_bounds by simp_all

lemma raised_centre_band:
  assumes "bw = 320 \<or> bw = 370"
  shows "0 < lowcut (2000 * octave_factor) bw"
    "lowcut (2000 * octave_factor) bw < highcut (2000 * octave_factor) bw 44100"
    "highcut (2000 * octave_factor) bw 44100 < nyquist 44100"
  using assms octave_factor_coarse
  by (auto simp: lowcut_def highcut_def nyquist_def)

lemma scenario_increase_centre_bandwidth:
  assumes "usable D"
  shows "snd (tinnitus_matching D g [''1'', ''3'', ''0''])
    = Inr \<lparr>centre_freq = 2000 * octave_factor, bandwidth = 370, sample_rate = 44100, duration_sec = 3\<rparr>"
proof -
  let ?s0 = "\<lparr>centre_freq = 2000, bandwidth = 320, sample_rate = 44100, duration_sec = 3\<rparr>"
  let ?s1 = "\<lparr>centre_freq = 2000 * octave_factor, bandwidth = 320, sample_rate = 44100, duration_sec = 3\<rparr>"
  let ?s2 = "\<lparr>centre_freq = 2000 * octave_factor, bandwidth = 370, sample_rate = 44100, duration_sec = 3\<rparr>"
  obtain w0 g0 where 0: "loop D g ?s0 [''1'', ''3'', ''0'']
      = emit (Played w0 44100 # menu @ [Read ''1'']) (loop D g0 ?s1 [''3'', ''0''])"
    using loop_default_step [OF assms, of 3 "''1''" g "[''3'', ''0'']"]
    by (auto simp: transition_def recognised_def)
  obtain w1 g1 where "generate_bandpass_noise D g0 (2000 * octave_factor) 320 3 44100 = Inr (w1, g1)"
    using generate_bandpass_noise_succeeds [OF assms, of 3 44100 "2000 * octave_factor" 320 g0]
      raised_centre_band [of 320] by auto
  then have "generate_bandpass_noise D g0 (centre_freq ?s1) (bandwidth ?s1) (duration_sec ?s1)
      (sample_rate ?s1) = Inr (w1, g1)" by simp
  from loop_state_eq [OF this, of "''3''" ?s2 "[''0'']"]
  have 1: "loop D g0 ?s1 [''3'', ''0''] = emit (Played w1 44100 # menu @ [Read ''3'']) (loop D g1 ?s2 [''0''])"
    by (simp add: transition_def recognised_def)
  obtain w2 g2 where "generate_bandpass_noise D g1 (2000 * octave_factor) 370 3 44100 = Inr (w2, g2)"
    using generate_bandpass_noise_succeeds [OF assms, of 3 44100 "2000 * octave_factor" 370 g1]
      raised_centre_band [of 370] by auto
  then have "generate_bandpass_noise D g1 (centre_freq ?s2) (bandwidth ?s2) (duration_sec ?s2)
      (sample_rate ?s2) = Inr (w2, g2)" by simp
  from loop_finish [OF this, of "[]"]
  have 2: "loop D g1 ?s2 [''0''] = (Played w2 44100 # menu @ [Read ''0''], Inr ?s2)" by simp
  show ?thesis
    unfolding tinnitus_matching_def initial_state_def 0 1 2 by simp
qed

lemma raised_centre_value: "\<bar>2000 * octave_factor - 2519.84\<bar> < 0.01"
  using octave_factor_bounds by (simp add: abs_less_iff)

text \<open>
  Claim C5. After a successful synthesis the loop continues with the state the table
  gives: \<^verbatim>\<open>1\<close> multiplies the centre by \<open>2 powr (1/3)\<close>, \<^verbatim>\<open>2\<close> divides by it, \<^verbatim>\<open>3\<close> and
  \<^verbatim>\<open>4\<close> add and subtract 50 Hz, \<^verbatim>\<open>5\<close> and \<^verbatim>\<open>6\<close> add and subtract 1 s, \<^verbatim>\<open>7\<close> changes
  nothing, and \<^verbatim>\<open>0\<close> returns the state. From the defaults, \<^verbatim>\<open>1 3 0\<close> returns centre
  \<open>2000 * 2 powr (1/3)\<close>, which is 2519.84 to within 0.01, bandwidth 370, duration 3 and
  sample rate 44100.
\<close>
theorem transition_table:
  "(generate_bandpass_noise D g (centre_freq s) (bandwidth s) (duration_sec s) (sample_rate s) = Inr (w, g')
     \<longrightarrow>
       loop D g s (''1'' # ins) = emit (Played w (sample_rate s) # menu @ [Read ''1''])
          (loop D g' (s\<lparr>centre_freq := centre_freq s * 2 powr (1 / 3)\<rparr>) ins)
     \<and> loop D g s (''2'' # ins) = emit (Played w (sample_rate s) # menu @ [Read ''2''])
          (loop D g' (s\<lparr>centre_freq := centre_freq s / 2 powr (1 / 3)\<rparr>) ins)
     \<and> loop D g s (''3'' # ins) = emit (Played w (sample_rate s) # menu @ [Read ''3''])
          (loop D g' (s\<lparr>bandwidth := bandwidth s + 50\<rparr>) ins)
     \<and> loop D g s (''4'' # ins) = emit (Played w (sample_rate s) # menu @ [Read ''4''])
          (loop D g' (s\<lparr>bandwidth := bandwidth s - 50\<rparr>) ins)
     \<and> loop D g s (''5'' # ins) = emit (Played w (sample_rate s) # menu @ [Read ''5''])
          (loop D g' (s\<lparr>duration_sec := duration_sec s + 1\<rparr>) ins)
     \<and> loop D g s (''6'' # ins) = emit (Played w (sample_rate s) # menu @ [Read ''6''])
          (loop D g' (s\<lparr>duration_sec := duration_sec s - 1\<rparr>) ins)
     \<and> loop D g s (''7'' # ins) = emit (Played w (sample_rate s) # menu @ [Read ''7''])
          (loop D g' s ins)
     \<and> loop D g s (''0'' # ins) = (Played w (sample_rate s) # menu @ [Read ''0''], Inr s))
   \<and> (usable D \<longrightarrow>
        snd (tinnitus_matching D g [''1'', ''3'', ''0''])
          = Inr \<lparr>centre_freq = 2000 * 2 powr (1 / 3), bandwidth = 370, sample_rate = 44100,
                 duration_sec = 3\<rparr>)
   \<and> \<bar>2000 * 2 powr (1 / 3) - 2519.84 :: real\<bar> < 0.01"
proof (intro conjI impI)
  assume ok: "generate_bandpass_noise D g (centre_freq s) (bandwidth s) (duration_sec s) (sample_rate s)
      = Inr (w, g')"
  note step = loop_state_eq [OF ok]
  show "loop D g s (''1'' # ins) = emit (Played w (sample_rate s) # menu @ [Read ''1''])
          (loop D g' (s\<lparr>centre_freq := centre_freq s * 2 powr (1 / 3)\<rparr>) ins)"
    by (rule step) (simp_all add: recognised_def transition_def octave_factor_def)
  show "loop D g s (''2'' # ins) = emit (Played w (sample_rate s) # menu @ [Read ''2''])
          (loop D g' (s\<lparr>centre_freq := centre_freq s / 2 powr (1 / 3)\<rparr>) ins)"
    by (rule step) (simp_all add: recognised_def transition_def octave_factor_def)
  show "loop D g s (''3'' # ins) = emit (Played w (sample_rate s) # menu @ [Read ''3''])
          (loop D g' (s\<lparr>bandwidth := bandwidth s + 50\<rparr>) ins)"
    by (rule step) (simp_all add: recognised_def transition_def)
  show "loop D g s (''4'' # ins) = emit (Played w (sample_rate s) # menu @ [Read ''4''])
          (loop D g' (s\<lparr>bandwidth := bandwidth s - 50\<rparr>) ins)"
    by (rule step) (simp_all add: recognised_def transition_def)
  show "loop D g s (''5'' # ins) = emit (Played w (sample_rate s) # menu @ [Read ''5''])
          (loop D g' (s\<lparr>duration_sec := duration_sec s + 1\<rparr>) ins)"
    by (rule step) (simp_all add: recognised_def transition_def)
  show "loop D g s (''6'' # ins) = emit (Played w (sample_rate s) # menu @ [Read ''6''])
          (loop D g' (s\<lparr>duration_sec := duration_sec s - 1\<rparr>) ins)"
    by (rule step) (simp_all add: recognised_def transition_def)
  show "loop D g s (''7'' # ins) = emit (Played w (sample_rate s) # menu @ [Read ''7''])
          (loop D g' s ins)"
    by (rule step) (simp_all add: recognised_def transition_def)
  show "loop D g s (''0'' # ins) = (Played w (sample_rate s) # menu @ [Read ''0''], Inr s)"
    using ok by (rule loop_finish)
next
  assume "usable D"
  then show "snd (tinnitus_matching D g [''1'', ''3'', ''0''])
          = Inr \<lparr>centre_freq = 2000 * 2 powr (1 / 3), bandwidth = 370, sample_rate = 44100,
                 duration_sec = 3\<rparr>"
    using scenario_increase_centre_bandwidth [of D g] by (simp add: octave_factor_def)
next
  show "\<bar>2000 * 2 powr (1 / 3) - 2519.84 :: real\<bar> < 0.01"
    using raised_centre_value by (simp add: octave_factor_def)
qed

lemma rounded_round_trip:
  fixes c d1 d2 eps :: real
  assumes "\<bar>d1\<bar> \<le> eps" and "\<bar>d2\<bar> \<le> eps"
  shows "\<bar>c * octave_factor * (1 + d1) / octave_factor * (1 + d2) - c\<bar> \<le> (2 * eps + eps * eps) * \<bar>c\<bar>"
proof -
  have f: "octave_factor \<noteq> 0" using octave_factor_pos by simp
  then have h: "c * octave_factor * (1 + d1) / octave_factor = c * (1 + d1)" by simp
  have "c * (1 + d1) * (1 + d2) - c = c * (d1 + d2 + d1 * d2)"
    by (simp add: algebra_simps)
  then have e: "c * octave_factor * (1 + d1) / octave_factor * (1 + d2) - c = c * (d1 + d2 + d1 * d2)"
    by (simp only: h)
  have "\<bar>(d1 + d2) + d1 * d2\<bar> \<le> \<bar>d1 + d2\<bar> + \<bar>d1 * d2\<bar>" by (rule abs_triangle_ineq)
  moreover have "\<bar>d1 + d2\<bar> \<le> \<bar>d1\<bar> + \<bar>d2\<bar>" by (rule abs_triangle_ineq)
  moreover have "\<bar>d1 * d2\<bar> = \<bar>d1\<bar> * \<bar>d2\<bar>" by (rule abs_mult)
  moreover have "\<bar>d1\<bar> * \<bar>d2\<bar> \<le> eps * eps"
    using assms by (intro mult_mono) auto
  ultimately have b: "\<bar>d1 + d2 + d1 * d2\<bar> \<le> 2 * eps + eps * eps"
    using assms by linarith
  have "\<bar>c * (d1 + d2 + d1 * d2)\<bar> = \<bar>c\<bar> * \<bar>d1 + d2 + d1 * d2\<bar>" by (rule abs_mult)
  also have "\<dots> \<le> \<bar>c\<bar> * (2 * eps + eps * eps)"
    using b by (rule mult_left_mono) simp
  finally show ?thesis unfolding e by (simp only: mult.commute)
qed

lemma default_synthesis:
  assumes "usable D"
  shows "\<exists>w g'. generate_bandpass_noise D g (centre_freq initial_state) (bandwidth initial_state)
      (duration_sec initial_state) (sample_rate initial_state) = Inr (w, g')"
  using generate_bandpass_noise_succeeds [OF assms, of 3 44100 2000 320 g] default_band
  by (simp add: initial_state_def)

text \<open>Claim C5, witness: the runs \<^verbatim>\<open>1 3 0\<close> and \<^verbatim>\<open>0\<close> with the sample collaborators.\<close>
theorem transition_table_witness:
  "usable unit_design
   \<and> snd (tinnitus_matching unit_design half_rng [''1'', ''3'', ''0''])
       = Inr \<lparr>centre_freq = 2000 * 2 powr (1 / 3), bandwidth = 370, sample_rate = 44100,
              duration_sec = 3\<rparr>
   \<and> snd (tinnitus_matching unit_design half_rng [''0'']) = Inr initial_state"
proof -
  obtain w g' where ok: "generate_bandpass_noise unit_design half_rng (centre_freq initial_state)
      (bandwidth initial_state) (duration_sec initial_state) (sample_rate initial_state) = Inr (w, g')"
    using default_synthesis [OF usable_unit_design] by blast
  from transition_table [of unit_design half_rng initial_state w g' "[]"] ok
  have "loop unit_design half_rng initial_state [''0'']
      = (Played w (sample_rate initial_state) # menu @ [Read ''0''], Inr initial_state)"
    by blast
  then have a: "snd (tinnitus_matching unit_design half_rng [''0'']) = Inr initial_state"
    by (simp add: tinnitus_matching_def)
  from transition_table [of unit_design half_rng initial_state w g' "[]"] usable_unit_design
  have "snd (tinnitus_matching unit_design half_rng [''1'', ''3'', ''0''])
       = Inr \<lparr>centre_freq = 2000 * 2 powr (1 / 3), bandwidth = 370, sample_rate = 44100,
              duration_sec = 3\<rparr>"
    by blast
  with a usable_unit_design show ?thesis by blast
qed

lemma transition_round_trip: "transition ''2'' (transition ''1'' s) = s"
  using octave_factor_pos by (simp add: transition_def)

text \<open>
  Claim C8. \<^verbatim>\<open>1\<close> followed by \<^verbatim>\<open>2\<close> restores the state: in exact arithmetic the centre is
  back at \<open>c\<close>, and the loop goes on with the state it started from. With each of the two
  float operations committing a relative error of at most \<open>eps\<close> (the standard model of
  rounding, without overflow), the centre comes back within \<open>(2 eps + eps\<^sup>2) \<bar>c\<bar>\<close> of \<open>c\<close>.
\<close>
theorem centre_round_trip:
  "transition ''2'' (transition ''1'' s) = s
   \<and> (generate_bandpass_noise D g (centre_freq s) (bandwidth s) (duration_sec s) (sample_rate s) = Inr (w, g')
      \<and> generate_bandpass_noise D g' (centre_freq s * octave_factor) (bandwidth s) (duration_sec s)
            (sample_rate s) = Inr (w', g'')
      \<longrightarrow> loop D g s (''1'' # ''2'' # ins)
            = emit (Played w (sample_rate s) # menu @ [Read ''1'']
                    @ Played w' (sample_rate s) # menu @ [Read ''2''])
                   (loop D g'' s ins))
   \<and> (\<bar>d1\<bar> \<le> eps \<and> \<bar>d2\<bar> \<le> eps
      \<longrightarrow> \<bar>centre_freq s * octave_factor * (1 + d1) / octave_factor * (1 + d2) - centre_freq s\<bar>
            \<le> (2 * eps + eps * eps) * \<bar>centre_freq s\<bar>)"
proof (intro conjI impI)
  show "transition ''2'' (transition ''1'' s) = s" by (rule transition_round_trip)
next
  assume "\<bar>d1\<bar> \<le> eps \<and> \<bar>d2\<bar> \<le> eps"
  then have "\<bar>d1\<bar> \<le> eps" and "\<bar>d2\<bar> \<le> eps" by simp_all
  then show "\<bar>centre_freq s * octave_factor * (1 + d1) / octave_factor * (1 + d2) - centre_freq s\<bar>
            \<le> (2 * eps + eps * eps) * \<bar>centre_freq s\<bar>"
    by (rule rounded_round_trip)
next
  assume a: "generate_bandpass_noise D g (centre_freq s) (bandwidth s) (duration_sec s) (sample_rate s) = Inr (w, g')
      \<and> generate_bandpass_noise D g' (centre_freq s * octave_factor) (bandwidth s) (duration_sec s)
            (sample_rate s) = Inr (w', g'')"
  let ?s1 = "transition ''1'' s"
  from a have 1: "loop D g s (''1'' # ''2'' # ins)
      = emit (Played w (sample_rate s) # menu @ [Read ''1'']) (loop D g' ?s1 (''2'' # ins))"
    by (intro loop_state_eq) (simp_all add: recognised_def)
  from a have "generate_bandpass_noise D g' (centre_freq ?s1) (bandwidth ?s1) (duration_sec ?s1)
      (sample_rate ?s1) = Inr (w', g'')"
    by (simp add: transition_def)
  then have "loop D g' ?s1 (''2'' # ins)
      = emit (Played w' (sample_rate ?s1) # menu @ [Read ''2'']) (loop D g'' s ins)"
    by (intro loop_state_eq) (simp_all add: recognised_def transition_round_trip)
  then have 2: "loop D g' ?s1 (''2'' # ins)
      = emit (Played w' (sample_rate s) # menu @ [Read ''2'']) (loop D g'' s ins)"
    by simp
  show "loop D g s (''1'' # ''2'' # ins)
            = emit (Played w (sample_rate s) # menu @ [Read ''1'']
                    @ Played w' (sample_rate s) # menu @ [Read ''2''])
                   (loop D g'' s ins)"
    unfolding 1 2 by simp
qed

text \<open>
  Claim C8, witness: the run \<^verbatim>\<open>1 2 0\<close> returns the default state; relative errors of
  \<open>2\<^sup>-\<^sup>5\<^sup>3\<close>, one up and one down, at 2000 Hz.
\<close>
theorem centre_round_trip_witness:
  "snd (tinnitus_matching unit_design half_rng [''1'', ''2'', ''0'']) = Inr initial_state
   \<and> \<bar>1 / 2 ^ 53\<bar> \<le> (1 / 2 ^ 53 :: real) \<and> \<bar>- (1 / 2 ^ 53)\<bar> \<le> (1 / 2 ^ 53 :: real)
   \<and> \<bar>centre_freq initial_state * octave_factor * (1 + 1 / 2 ^ 53) / octave_factor
          * (1 + - (1 / 2 ^ 53)) - centre_freq initial_state\<bar>
        \<le> (2 * (1 / 2 ^ 53) + 1 / 2 ^ 53 * (1 / 2 ^ 53)) * \<bar>centre_freq initial_state\<bar>"
proof -
  have h: "\<bar>1 / 2 ^ 53\<bar> \<le> (1 / 2 ^ 53 :: real) \<and> \<bar>- (1 / 2 ^ 53)\<bar> \<le> (1 / 2 ^ 53 :: real)"
    by simp
  from centre_round_trip [where s = initial_state and ?d1.0 = "1 / 2 ^ 53" and ?d2.0 = "- (1 / 2 ^ 53)"
      and eps = "1 / 2 ^ 53"] h
  have r: "\<bar>centre_freq initial_state * octave_factor * (1 + 1 / 2 ^ 53) / octave_factor
          * (1 + - (1 / 2 ^ 53)) - centre_freq initial_state\<bar>
        \<le> (2 * (1 / 2 ^ 53) + 1 / 2 ^ 53 * (1 / 2 ^ 53)) * \<bar>centre_freq initial_state\<bar>"
    by blast
  obtain w g' where ok: "generate_bandpass_noise unit_design half_rng (centre_freq initial_state)
      (bandwidth initial_state) (duration_sec initial_state) (sample_rate initial_state) = Inr (w, g')"
    using default_synthesis [OF usable_unit_design] by blast
  obtain w' g'' where ok': "generate_bandpass_noise unit_design g' (centre_freq initial_state * octave_factor)
      (bandwidth initial_state) (duration_sec initial_state) (sample_rate initial_state) = Inr (w', g'')"
    using generate_bandpass_noise_succeeds [OF usable_unit_design, of 3 44100 "2000 * octave_factor" 320 g']
      raised_centre_band [of 320] by (auto simp: initial_state_def)
  obtain w2 g2 where ok2: "generate_bandpass_noise unit_design g'' (centre_freq initial_state)
      (bandwidth initial_state) (duration_sec initial_state) (sample_rate initial_state) = Inr (w2, g2)"
    using default_synthesis [OF usable_unit_design] by blast
  from centre_round_trip [where s = initial_state and D = unit_design and g = half_rng and w = w
      and g' = g' and w' = w' and g'' = g'' and ins = "[''0'']"] ok ok'
  have "loop unit_design half_rng initial_state [''1'', ''2'', ''0'']
      = emit (Played w (sample_rate initial_state) # menu @ [Read ''1'']
                    @ Played w' (sample_rate initial_state) # menu @ [Read ''2''])
             (loop unit_design g'' initial_state [''0''])"
    by blast
  with loop_finish [OF ok2, of "[]"]
  have "snd (tinnitus_matching unit_design half_rng [''1'', ''2'', ''0'']) = Inr initial_state"
    by (simp add: tinnitus_matching_def)
  with h r show ?thesis by blast
qed

text \<open>
  Claim C9. \<^verbatim>\<open>1\<close> and \<^verbatim>\<open>2\<close> leave bandwidth and duration unchanged, \<^verbatim>\<open>3\<close> and \<^verbatim>\<open>4\<close> leave
  centre and duration unchanged, \<^verbatim>\<open>5\<close> and \<^verbatim>\<open>6\<close> leave centre and bandwidth unchanged; no
  line changes the sample rate; the loop goes on with the state \<open>transition\<close> gives; every
  playback of a session is at 44100 Hz, and so is the snapshot returned.
\<close>
theorem transition_frame:
  "(bandwidth (transition ''1'' s) = bandwidth s \<and> duration_sec (transition ''1'' s) = duration_sec s)
   \<and> (bandwidth (transition ''2'' s) = bandwidth s \<and> duration_sec (transition ''2'' s) = duration_sec s)
   \<and> (centre_freq (transition ''3'' s) = centre_freq s \<and> duration_sec (transition ''3'' s) = duration_sec s)
   \<and> (centre_freq (transition ''4'' s) = centre_freq s \<and> duration_sec (transition ''4'' s) = duration_sec s)
   \<and> (centre_freq (transition ''5'' s) = centre_freq s \<and> bandwidth (transition ''5'' s) = bandwidth s)
   \<and> (centre_freq (transition ''6'' s) = centre_freq s \<and> bandwidth (transition ''6'' s) = bandwidth s)
   \<and> sample_rate (transition u s) = sample_rate s
   \<and> (generate_bandpass_noise D g (centre_freq s) (bandwidth s) (duration_sec s) (sample_rate s) = Inr (w, g')
        \<and> u \<noteq> ''0''
      \<longrightarrow> snd (loop D g s (u # ins)) = snd (loop D g' (transition u s) ins))
   \<and> set (rates (fst (tinnitus_matching D g ins))) \<subseteq> {44100}
   \<and> (snd (tinnitus_matching D g ins) = Inr s' \<longrightarrow> sample_rate s' = 44100)"
proof (intro conjI impI)
  assume "generate_bandpass_noise D g (centre_freq s) (bandwidth s) (duration_sec s) (sample_rate s) = Inr (w, g')
        \<and> u \<noteq> ''0''"
  then show "snd (loop D g s (u # ins)) = snd (loop D g' (transition u s) ins)"
    by (simp add: loop_Cons)
next
  show "set (rates (fst (tinnitus_matching D g ins))) \<subseteq> {44100}"
    using loop_rates [of D g initial_state ins]
    by (simp add: tinnitus_matching_def initial_state_def)
next
  assume "snd (tinnitus_matching D g ins) = Inr s'"
  then have "snd (loop D g initial_state ins) = Inr s'" by (simp add: tinnitus_matching_def)
  from loop_sample_rate [OF this] show "sample_rate s' = 44100" by (simp add: initial_state_def)
qed (simp_all add: transition_def)

text \<open>Claim C9, witness: the run \<^verbatim>\<open>4 0\<close> returns bandwidth 270 with the other fields as they were.\<close>
theorem transition_frame_witness:
  "snd (tinnitus_matching unit_design half_rng [''4'', ''0''])
     = Inr \<lparr>centre_freq = 2000, bandwidth = 270, sample_rate = 44100, duration_sec = 3\<rparr>
   \<and> sample_rate \<lparr>centre_freq = 2000, bandwidth = 270, sample_rate = 44100, duration_sec = 3 :: real\<rparr> = 44100"
proof -
  let ?s1 = "\<lparr>centre_freq = 2000, bandwidth = 270, sample_rate = 44100, duration_sec = 3 :: real\<rparr>"
  obtain w g' where ok: "generate_bandpass_noise unit_design half_rng (centre_freq initial_state)
      (bandwidth initial_state) (duration_sec initial_state) (sample_rate initial_state) = Inr (w, g')"
    using default_synthesis [OF usable_unit_design] by blast
  have t: "transition ''4'' initial_state = ?s1"
    by (simp add: transition_def initial_state_def)
  from transition_frame [of initial_state "''4''" unit_design half_rng w g' "[''0'']"] ok
  have 1: "snd (loop unit_design half_rng initial_state [''4'', ''0''])
      = snd (loop unit_design g' ?s1 [''0''])"
    unfolding t by simp
  obtain w1 g1 where "generate_bandpass_noise unit_design g' 2000 270 3 44100 = Inr (w1, g1)"
    using generate_bandpass_noise_succeeds [OF usable_unit_design, of 3 44100 2000 270 g']
    by (auto simp: lowcut_def highcut_def nyquist_def)
  then have "generate_bandpass_noise unit_design g' (centre_freq ?s1) (bandwidth ?s1) (duration_sec ?s1)
      (sample_rate ?s1) = Inr (w1, g1)" by simp
  from loop_finish [OF this, of "[]"] 1
  have r: "snd (tinnitus_matching unit_design half_rng [''4'', ''0'']) = Inr ?s1"
    by (simp add: tinnitus_matching_def)
  from transition_frame [of initial_state "''4''" unit_design half_rng w g' "[''4'', ''0'']" ?s1] r
  have "sample_rate ?s1 = 44100" by blast
  with r show ?thesis by blast
qed

lemma plays_invalid_Cons [simp]: "plays (invalid_input # es) = plays es"
  by (simp add: invalid_input_def)

lemma loop_starts_with_play:
  assumes "generate_bandpass_noise D g (centre_freq s) (bandwidth s) (duration_sec s) (sample_rate s) = Inr (w, g')"
  shows "\<exists>es out. loop D g s ins = (Played w (sample_rate s) # es, out)"
proof (cases ins)
  case Nil
  with assms show ?thesis by (simp add: loop_Nil)
next
  case (Cons u ins')
  with assms show ?thesis by (simp add: loop_Cons emit_def)
qed

text \<open>
  Claim C6, counterexample. The run \<^verbatim>\<open>9 0\<close> plays the stimulus twice: once before the
  unrecognised line is read and once more after it, before \<^verbatim>\<open>0\<close> is read.
\<close>
theorem unrecognised_replays_counterexample:
  "\<not> recognised ''9''
   \<and> plays (fst (tinnitus_matching unit_design half_rng [''9'', ''0''])) = 2"
proof -
  let ?s = "\<lparr>centre_freq = 2000, bandwidth = 320, sample_rate = 44100, duration_sec = 3 :: real\<rparr>"
  have n: "\<not> recognised ''9''" by (simp add: recognised_def)
  obtain w g' where 1: "loop unit_design half_rng ?s [''9'', ''0'']
      = emit (Played w 44100 # menu @ [Read ''9''] @ [invalid_input]) (loop unit_design g' ?s [''0''])"
    using loop_default_step [OF usable_unit_design, of 3 "''9''" half_rng "[''0'']"] n
    by (auto simp: transition_def)
  obtain w' g'' where 2: "loop unit_design g' ?s [''0''] = (Played w' 44100 # menu @ [Read ''0''], Inr ?s)"
    using loop_default_finish [OF usable_unit_design, of 3 g' "[]"] by auto
  have "plays (fst (tinnitus_matching unit_design half_rng [''9'', ''0''])) = 2"
    unfolding tinnitus_matching_def initial_state_def 1 2 by simp
  with n show ?thesis by blast
qed

text \<open>
  Claim C6, as amended. For a line that is none of \<^verbatim>\<open>0\<close> to \<^verbatim>\<open>7\<close>, the loop prints the
  invalid-input message and goes on with the same state; the next turn synthesises and
  plays that state again before it reads the next line.
\<close>
theorem unrecognised_command:
  assumes "\<not> recognised u"
    and "generate_bandpass_noise D g (centre_freq s) (bandwidth s) (duration_sec s) (sample_rate s) = Inr (w, g')"
  shows "loop D g s (u # ins)
           = emit (Played w (sample_rate s) # menu @ [Read u, invalid_input]) (loop D g' s ins)
         \<and> (\<forall>w' g''. generate_bandpass_noise D g' (centre_freq s) (bandwidth s) (duration_sec s)
                        (sample_rate s) = Inr (w', g'')
              \<longrightarrow> (\<exists>es out. loop D g' s ins = (Played w' (sample_rate s) # es, out)))"
proof
  from assms(1) have "u \<noteq> ''0''" and "transition u s = s"
    by (auto simp: recognised_def transition_def)
  with assms show "loop D g s (u # ins)
           = emit (Played w (sample_rate s) # menu @ [Read u, invalid_input]) (loop D g' s ins)"
    by (simp add: loop_Cons)
  show "\<forall>w' g''. generate_bandpass_noise D g' (centre_freq s) (bandwidth s) (duration_sec s)
                        (sample_rate s) = Inr (w', g'')
              \<longrightarrow> (\<exists>es out. loop D g' s ins = (Played w' (sample_rate s) # es, out))"
    using loop_starts_with_play by blast
qed

text \<open>Claim C6, witness: the run \<^verbatim>\<open>x 0\<close> returns the default state.\<close>
theorem unrecognised_command_witness:
  "\<not> recognised ''x''
   \<and> snd (tinnitus_matching unit_design half_rng [''x'', ''0'']) = Inr initial_state"
proof -
  have n: "\<not> recognised ''x''" by (simp add: recognised_def)
  obtain w g' where ok: "generate_bandpass_noise unit_design half_rng (centre_freq initial_state)
      (bandwidth initial_state) (duration_sec initial_state) (sample_rate initial_state) = Inr (w, g')"
    using default_synthesis [OF usable_unit_design] by blast
  obtain w' g'' where ok': "generate_bandpass_noise unit_design g' (centre_freq initial_state)
      (bandwidth initial_state) (duration_sec initial_state) (sample_rate initial_state) = Inr (w', g'')"
    using default_synthesis [OF usable_unit_design] by blast
  from unrecognised_command [OF n ok, of "[''0'']"]
  have "loop unit_design half_rng initial_state [''x'', ''0'']
      = emit (Played w (sample_rate initial_state) # menu @ [Read ''x'', invalid_input])
             (loop unit_design g' initial_state [''0''])"
    by blast
  with loop_finish [OF ok', of "[]"] n show ?thesis
    by (simp add: tinnitus_matching_def)
qed

text \<open>
  Claim C10. In the trace of every session each line read follows a playback of its own
  turn; each turn whose synthesis succeeds starts with the playback of the current state,
  then the menu, then the read; and the default stimulus is played once before the first
  line is read, also when that line is \<^verbatim>\<open>0\<close>.
\<close>
theorem play_precedes_read:
  "play_then_read False (fst (tinnitus_matching D g ins))
   \<and> (generate_bandpass_noise D g (centre_freq s) (bandwidth s) (duration_sec s) (sample_rate s) = Inr (w, g')
        \<longrightarrow> (\<exists>es out. loop D g s (u # ins) = (Played w (sample_rate s) # menu @ Read u # es, out)))
   \<and> (generate_bandpass_noise D g 2000 320 3 44100 = Inr (w0, g0)
        \<longrightarrow> tinnitus_matching D g (''0'' # ins)
            = (Printed ''Starting tinnitus matching.'' # Played w0 44100 # menu @ [Read ''0''],
               Inr initial_state))"
proof (intro conjI impI)
  show "play_then_read False (fst (tinnitus_matching D g ins))"
    using play_then_read_loop [of False D g initial_state ins]
    by (simp add: tinnitus_matching_def)
next
  assume "generate_bandpass_noise D g (centre_freq s) (bandwidth s) (duration_sec s) (sample_rate s) = Inr (w, g')"
  then show "\<exists>es out. loop D g s (u # ins) = (Played w (sample_rate s) # menu @ Read u # es, out)"
    by (simp add: loop_Cons emit_def)
next
  assume "generate_bandpass_noise D g 2000 320 3 44100 = Inr (w0, g0)"
  then have "generate_bandpass_noise D g (centre_freq initial_state) (bandwidth initial_state)
      (duration_sec initial_state) (sample_rate initial_state) = Inr (w0, g0)"
    by (simp add: initial_state_def)
  from loop_finish [OF this, of ins]
  show "tinnitus_matching D g (''0'' # ins)
            = (Printed ''Starting tinnitus matching.'' # Played w0 44100 # menu @ [Read ''0''],
               Inr initial_state)"
    by (simp add: tinnitus_matching_def emit_def initial_state_def)
qed

text \<open>Claim C10, witness: the run whose first line is \<^verbatim>\<open>0\<close> has exactly one playback.\<close>
theorem play_precedes_read_witness:
  "plays (fst (tinnitus_matching unit_design half_rng [''0'', ''1''])) = 1
   \<and> snd (tinnitus_matching unit_design half_rng [''0'', ''1'']) = Inr initial_state
   \<and> play_then_read False (fst (tinnitus_matching unit_design half_rng [''0'', ''1'']))"
proof -
  obtain w0 g0 where ok: "generate_bandpass_noise unit_design half_rng 2000 320 3 44100 = Inr (w0, g0)"
    using default_synthesis [OF usable_unit_design, of half_rng] by (auto simp: initial_state_def)
  note t = play_precedes_read [of unit_design half_rng "[''1'']" initial_state w0 g0 "''0''" w0 g0]
  from t ok have "tinnitus_matching unit_design half_rng [''0'', ''1'']
      = (Printed ''Starting tinnitus matching.'' # Played w0 44100 # menu @ [Read ''0''], Inr initial_state)"
    by blast
  then show ?thesis by simp
qed

end
